theory Spec2Isabelle
  imports Complex_Main "HOL-Library.Sublist"
begin

section \<open>Values, errors and byte strings\<close>

text \<open>
  Python \<open>bytes\<close> and \<open>str\<close> are both modelled as \<open>string\<close>: an Isabelle \<open>char\<close> is
  one byte. Python integers are unbounded, so they are \<open>int\<close>. Readings of
  \<open>time.time()\<close> are rationals (seconds), the exact values of the floats read. In
  \<open>pull_tasks\<close> an integer number of seconds is added to a reading and the sum is
  compared with another reading. In \<open>push_results\<close> the period added is a fraction of a
  second, and the float operations are parameters of the model (\<open>float_ops\<close> below).
\<close>

type_synonym bytes = string
type_synonym seconds = rat

datatype error =
    OverflowError
  | IndexError
  | KeyError
  | TypeError
  | ValueError
  | UnpicklingError
  | Again

text \<open>\<open>int.to_bytes(length, "little")\<close>: unsigned, raises OverflowError on a negative
  number and on one that does not fit.\<close>

fun le_bytes :: "nat \<Rightarrow> int \<Rightarrow> bytes" where
  "le_bytes 0 n = []"
| "le_bytes (Suc k) n = char_of (n mod 256) # le_bytes k (n div 256)"

definition to_bytes :: "int \<Rightarrow> nat \<Rightarrow> error + bytes" where
  "to_bytes n len =
     (if n < 0 then Inl OverflowError
      else if 256 ^ len \<le> n then Inl OverflowError
      else Inr (le_bytes len n))"

text \<open>\<open>int.from_bytes(b, "little")\<close>, used to say what a frame encodes.\<close>

fun from_bytes :: "bytes \<Rightarrow> int" where
  "from_bytes [] = 0"
| "from_bytes (c # cs) = of_char c + 256 * from_bytes cs"

definition HEARTBEAT_CODE :: int where
  "HEARTBEAT_CODE = 2 ^ 32 - 1"

section \<open>zmq_pipes.py: TasksOutgoing.put\<close>

text \<open>
  The socket is the list of messages sent on it. The poller is the environment:
  \<open>pollout k\<close> says whether the poll called with \<open>timeout_ms = k\<close> reports the socket
  writable (\<open>timeout_ms\<close> starts at 0 and grows by one per failed poll, so \<open>k\<close> is also
  the number of polls made before). The loop returns the outcome of the call
  (\<open>Inr ()\<close> for a normal return, \<open>Inl Again\<close> for the raise) and the socket.
\<close>

function put_loop ::
  "(nat \<Rightarrow> bool) \<Rightarrow> 'm \<Rightarrow> int \<Rightarrow> nat \<Rightarrow> int \<Rightarrow> 'm list \<Rightarrow> (error + unit) \<times> 'm list"
where
  "put_loop pollout message max_timeout timeout_ms current_wait zmq_socket =
     (if current_wait < max_timeout then
        (if pollout timeout_ms then (Inr (), zmq_socket @ [message])
         else put_loop pollout message max_timeout (timeout_ms + 1)
                (current_wait + int (timeout_ms + 1)) zmq_socket)
      else (Inl Again, zmq_socket))"
  by pat_completeness auto
termination
  by (relation "measure (\<lambda>(pollout, message, max_timeout, timeout_ms, current_wait, zmq_socket).
        nat (max_timeout - current_wait))") auto

definition put :: "(nat \<Rightarrow> bool) \<Rightarrow> 'm \<Rightarrow> int \<Rightarrow> 'm list \<Rightarrow> (error + unit) \<times> 'm list" where
  "put pollout message max_timeout zmq_socket =
     put_loop pollout message max_timeout 0 0 zmq_socket"

text \<open>The value of \<open>current_wait\<close> when the poll with \<open>timeout_ms = k\<close> is reached:
  \<open>1 + 2 + ... + k\<close>.\<close>

fun waited :: "nat \<Rightarrow> int" where
  "waited 0 = 0"
| "waited (Suc k) = waited k + int (Suc k)"

section \<open>funcx_manager.py: the poll timer\<close>

text \<open>Lines 322-324 of \<open>pull_tasks\<close>, the branch taken when nothing was received on the
  task socket.\<close>

definition backoff :: "int \<Rightarrow> int \<Rightarrow> int \<Rightarrow> int" where
  "backoff poll_period heartbeat_period poll_timer =
     (let poll_timer = (if poll_timer = 0 then poll_period else poll_timer)
      in min (heartbeat_period * 1000) (poll_timer * 2))"

text \<open>The formula as the specification words it, for comparison.\<close>

definition backoff_spec :: "int \<Rightarrow> int \<Rightarrow> int \<Rightarrow> int" where
  "backoff_spec initial_poll_period heartbeat_period poll_timer =
     min (heartbeat_period * 1000) (max (poll_timer * 2) initial_poll_period)"

section \<open>funcx_manager.py: data\<close>

text \<open>A \<open>task_id\<close> is a \<open>str\<close> in a task of the Interchange and a \<open>bytes\<close> object in
  the KILL sentinel that \<open>remove_worker_init\<close> builds.\<close>

datatype pyval = Str string | Bytes bytes

record task =
  task_id :: pyval
  buffer :: bytes

type_synonym task_type = string
type_synonym worker_id = bytes

text \<open>\<open>str.split(sep)\<close> for a one-character separator: one more piece than there are
  separators, never an empty list.\<close>

fun split :: "char \<Rightarrow> string \<Rightarrow> string list" where
  "split sep [] = [[]]"
| "split sep (c # cs) =
     (if c = sep then [] # split sep cs
      else (c # hd (split sep cs)) # tl (split sep cs))"

text \<open>Line 308: \<open>task['task_id'].split(';')[1]\<close>. Splitting a \<open>bytes\<close> id by a \<open>str\<close>
  separator is a TypeError; index 1 of a one-element list is an IndexError.\<close>

definition task_type_of :: "task \<Rightarrow> error + task_type" where
  "task_type_of t =
     (case task_id t of
        Bytes b \<Rightarrow> Inl TypeError
      | Str s \<Rightarrow>
          (case split CHR '';'' s of
             x # y # rest \<Rightarrow> Inr y
           | _ \<Rightarrow> Inl IndexError))"

text \<open>The specification's wording of the task type: the suffix after the first \<open>;\<close>.\<close>

definition suffix_after_first :: "char \<Rightarrow> string \<Rightarrow> string" where
  "suffix_after_first sep s = drop 1 (dropWhile (\<lambda>c. c \<noteq> sep) s)"

text \<open>
  \<open>WorkerMap\<close> (module \<open>worker_map\<close>, not among the sources): the attributes that
  \<open>funcx_manager.py\<close> reads or writes. Its methods are parameters of the model, see
  \<open>deps\<close> below.
\<close>

record worker_map =
  pending_workers :: int
  active_workers :: int
  worker_counter :: int
  total_worker_type_counts :: "task_type \<rightharpoonup> int"
  to_die_count :: "task_type \<rightharpoonup> int"
  worker_queues :: "task_type \<rightharpoonup> worker_id list"

text \<open>
  The attributes of \<open>Manager\<close> that the loops use. A \<open>queue.Queue\<close> is the list of its
  elements, head first; a socket is the list of the messages sent on it, oldest first
  (\<open>send\<close> sends one frame, \<open>send_multipart\<close> a list of frames).
\<close>

record manager =
  worker_count :: int
  max_queue_size :: int
  heartbeat_period :: int
  heartbeat_threshold :: int
  poll_period :: int
  worker_map :: worker_map
  task_queues :: "task_type \<rightharpoonup> task list"
  pending_result_queue :: "bytes list"
  next_worker_q :: "task_type list"
  task_incoming :: "bytes list"
  funcx_task_socket :: "bytes list list"
  result_outgoing :: "bytes list list"

text \<open>
  An entry of the history kept beside the locals of \<open>pull_tasks\<close>: a task of the
  Interchange put on a task queue (line 315), or a task taken from a task queue and sent
  to a worker (lines 371-376).
\<close>

datatype event =
    Arrived task_type task
  | Sent task_type worker_id task

text \<open>
  The locals of \<open>pull_tasks\<close> on top of the Manager's attributes. \<open>kill_event\<close> is the
  \<open>threading.Event\<close>. \<open>history\<close> is a history variable: no branch reads it, it only
  records the order of what the loop did.
\<close>

record pull_tasks_state = manager +
  last_beat :: seconds
  last_interchange_contact :: seconds
  task_recv_counter :: int
  task_done_counter :: int
  poll_timer :: int
  new_worker_map :: "(task_type \<times> int) list option"
  kill_event :: bool
  history :: "event list"

text \<open>What \<open>pickle.loads\<close> can give for a message of the Interchange.\<close>

datatype payload = PStr string | PInt int | PTasks "task list" | POther

text \<open>
  What the model takes from outside the two source files: \<open>pickle\<close>, the methods of
  \<open>WorkerMap\<close> and \<open>naive_scheduler\<close>. A method called inside the \<open>try\<close> block of
  \<open>pull_tasks\<close> returns the exception it raised, if any, and the worker map as it
  left it. The methods called outside the \<open>try\<close> block are taken to return. The
  methods of \<open>WorkerMap\<close> work on the worker map only, and \<open>naive_scheduler\<close>, which is
  handed the task queues, only reads them.
\<close>

record deps =
  pickle_dumps :: "pyval \<Rightarrow> bytes"
  loads_reg_info :: "bytes \<Rightarrow> error + (string \<rightharpoonup> string)"
  loads_tasks :: "bytes \<Rightarrow> error + payload"
  ready_worker_count :: "worker_map \<Rightarrow> int"
  register_worker :: "worker_id \<Rightarrow> string \<Rightarrow> worker_map \<Rightarrow> error option \<times> worker_map"
  put_worker :: "worker_id \<Rightarrow> worker_map \<Rightarrow> error option \<times> worker_map"
  remove_worker :: "worker_id \<Rightarrow> worker_map \<Rightarrow> error option \<times> worker_map"
  spin_up_workers :: "task_type list \<Rightarrow> worker_map \<Rightarrow> worker_map \<times> task_type list"
  naive_scheduler ::
    "(task_type \<rightharpoonup> task list) \<Rightarrow> int \<Rightarrow> (task_type \<times> int) list option \<Rightarrow>
     (task_type \<rightharpoonup> int) \<Rightarrow> (task_type \<times> int) list option"
  spin_down_workers :: "(task_type \<times> int) list \<Rightarrow> worker_map \<Rightarrow> task_type list \<times> worker_map"
  get_next_worker_q :: "(task_type \<times> int) list \<Rightarrow> worker_map \<Rightarrow> task_type list"
  get_worker_counts :: "worker_map \<Rightarrow> (task_type \<times> int) list"
  get_worker :: "task_type \<Rightarrow> worker_map \<Rightarrow> worker_id \<times> worker_map"
  add_worker :: "int \<Rightarrow> task_type \<Rightarrow> worker_map \<Rightarrow> worker_map"

text \<open>
  A step of a loop either raises, and the exception leaves the function with the state
  as mutated so far (\<open>Inl\<close>), or goes on with the new state (\<open>Inr\<close>).
\<close>

type_synonym 's outcome = "(error \<times> 's) + 's"

definition and_then :: "'s outcome \<Rightarrow> ('s \<Rightarrow> 's outcome) \<Rightarrow> 's outcome" where
  "and_then r f = (case r of Inl x \<Rightarrow> Inl x | Inr s \<Rightarrow> f s)"

definition final :: "'s outcome \<Rightarrow> 's" where
  "final r = (case r of Inl (e, s) \<Rightarrow> s | Inr s \<Rightarrow> s)"

section \<open>funcx_manager.py: Manager.__init__, start, heartbeat, remove_worker_init\<close>

text \<open>
  The constructor arguments that reach the modelled attributes. \<open>max_workers\<close> is
  \<open>None\<close> for \<open>float('inf')\<close>. \<open>cores_floor\<close> stands for the value of
  \<open>math.floor(self.cores_on_node / cores_per_worker)\<close>, a floating-point division of
  the machine's core count that the model takes as given.
\<close>

record config =
  cfg_max_queue_size :: int
  cfg_max_workers :: "int option"
  cfg_cores_floor :: int
  cfg_heartbeat_threshold :: int
  cfg_heartbeat_period :: int
  cfg_poll_period :: int

text \<open>
  Modelled from the spec: the constructor of \<open>WorkerMap\<close> is not among the sources. The
  counts start at zero and the per-type tables empty; the capacity it is given is kept
  by the Manager as \<open>worker_count\<close>.
\<close>

definition WorkerMap_init :: "int \<Rightarrow> worker_map" where
  "WorkerMap_init n =
     \<lparr>pending_workers = 0, active_workers = 0, worker_counter = 0,
      total_worker_type_counts = Map.empty, to_die_count = Map.empty,
      worker_queues = Map.empty\<rparr>"

definition Manager_init :: "config \<Rightarrow> manager" where
  "Manager_init cfg =
     (let worker_count =
            (case cfg_max_workers cfg of
               None \<Rightarrow> cfg_cores_floor cfg
             | Some max_workers \<Rightarrow> min max_workers (cfg_cores_floor cfg))
      in \<lparr>worker_count = worker_count,
          max_queue_size = cfg_max_queue_size cfg + worker_count,
          heartbeat_period = cfg_heartbeat_period cfg,
          heartbeat_threshold = cfg_heartbeat_threshold cfg,
          poll_period = cfg_poll_period cfg,
          worker_map = WorkerMap_init worker_count,
          task_queues = [''RAW'' \<mapsto> []],
          pending_result_queue = [],
          next_worker_q = [],
          task_incoming = [],
          funcx_task_socket = [],
          result_outgoing = []\<rparr>)"

text \<open>Lines 186-190: \<open>heartbeat\<close>.\<close>

definition heartbeat :: "'a manager_scheme \<Rightarrow> 'a manager_scheme outcome" where
  "heartbeat self =
     (case to_bytes HEARTBEAT_CODE 4 of
        Inl e \<Rightarrow> Inl (e, self)
      | Inr heartbeat \<Rightarrow> Inr (self\<lparr>task_incoming := task_incoming self @ [heartbeat]\<rparr>))"

text \<open>Lines 414-426: \<open>remove_worker_init\<close>. Both subscripts are dictionary lookups and
  raise KeyError on a key that is not there.\<close>

definition KILL :: "deps \<Rightarrow> task" where
  "KILL d = \<lparr>task_id = Bytes (pickle_dumps d (Bytes ''KILL'')), buffer = ''KILL''\<rparr>"

definition remove_worker_init ::
  "deps \<Rightarrow> task_type \<Rightarrow> 'a manager_scheme \<Rightarrow> 'a manager_scheme outcome"
where
  "remove_worker_init d worker_type self =
     (case to_die_count (worker_map self) worker_type of
        None \<Rightarrow> Inl (KeyError, self)
      | Some n \<Rightarrow>
          (let self = self\<lparr>worker_map := (worker_map self)
                 \<lparr>to_die_count := (to_die_count (worker_map self))(worker_type \<mapsto> n + 1)\<rparr>\<rparr>
           in case task_queues self worker_type of
                None \<Rightarrow> Inl (KeyError, self)
              | Some q \<Rightarrow>
                  Inr (self\<lparr>task_queues := (task_queues self)(worker_type \<mapsto> q @ [KILL d])\<rparr>)))"

text \<open>Lines 436-446 of \<open>start\<close>, up to the call of \<open>pull_tasks\<close>. \<open>add_worker\<close> gets the
  counter whose decimal string is the worker id.\<close>

definition start :: "deps \<Rightarrow> manager \<Rightarrow> manager" where
  "start d self =
     (let self = self\<lparr>task_queues := [''RAW'' \<mapsto> []]\<rparr>;
          wm = add_worker d (worker_counter (worker_map self)) ''RAW'' (worker_map self);
          wm = wm\<lparr>worker_counter := worker_counter wm + 1\<rparr>;
          wm = wm\<lparr>pending_workers := pending_workers wm + 1\<rparr>
      in self\<lparr>worker_map := wm\<rparr>)"

section \<open>funcx_manager.py: pull_tasks\<close>

text \<open>Lines 218-228: the registration message (built by \<open>create_reg_message\<close> from the
  platform, given here) is sent and the locals are set. The two clock readings are
  given.\<close>

definition pull_tasks_entry ::
  "bytes \<Rightarrow> seconds \<Rightarrow> seconds \<Rightarrow> manager \<Rightarrow> pull_tasks_state"
where
  "pull_tasks_entry msg now now' self =
     manager.extend (self\<lparr>task_incoming := task_incoming self @ [msg]\<rparr>)
       (pull_tasks_state.fields now now' 0 0 (poll_period self) None False [])"

text \<open>Lines 237-239. \<open>now\<close> is the clock read by the comparison, \<open>now'\<close> the clock read
  after the send.\<close>

definition beat :: "seconds \<Rightarrow> seconds \<Rightarrow> pull_tasks_state \<Rightarrow> pull_tasks_state outcome" where
  "beat now now' st =
     (if now > last_beat st + of_int (heartbeat_period st)
      then and_then (heartbeat st) (\<lambda>st. Inr (st\<lparr>last_beat := now'\<rparr>))
      else Inr st)"

text \<open>Lines 241-244, with the two counts computed at lines 232-233.\<close>

definition request_tasks ::
  "int \<Rightarrow> int \<Rightarrow> pull_tasks_state \<Rightarrow> pull_tasks_state outcome"
where
  "request_tasks pending_task_count ready_count st =
     (if pending_task_count < max_queue_size st \<and> ready_count > 0
      then (case to_bytes ready_count 4 of
              Inl e \<Rightarrow> Inl (e, st)
            | Inr msg \<Rightarrow> Inr (st\<lparr>task_incoming := task_incoming st @ [msg]\<rparr>))
      else Inr st)"

text \<open>
  Lines 248-274: a message of a worker. Every exception is caught and logged at line
  273, so the step always goes on; what was assigned before the exception stays. A
  message that is not three frames fails to unpack.
\<close>

definition recv_worker :: "deps \<Rightarrow> bytes list \<Rightarrow> pull_tasks_state \<Rightarrow> pull_tasks_state" where
  "recv_worker d frames st =
     (case frames of
        [w_id, m_type, message] \<Rightarrow>
          if m_type = ''REGISTER'' then
            (case loads_reg_info d message of
               Inl e \<Rightarrow> st
             | Inr reg_info \<Rightarrow>
                 (let wm = worker_map st;
                      wm = wm\<lparr>pending_workers := pending_workers wm - 1\<rparr>;
                      wm = wm\<lparr>active_workers := active_workers wm + 1\<rparr>
                  in case reg_info ''worker_type'' of
                       None \<Rightarrow> st\<lparr>worker_map := wm\<rparr>
                     | Some worker_type \<Rightarrow>
                         st\<lparr>worker_map := snd (register_worker d w_id worker_type wm)\<rparr>))
          else if m_type = ''TASK_RET'' then
            (let st = st\<lparr>pending_result_queue := pending_result_queue st @ [message]\<rparr>;
                 (raised, wm) = put_worker d w_id (worker_map st);
                 st = st\<lparr>worker_map := wm\<rparr>
             in case raised of
                  Some e \<Rightarrow> st
                | None \<Rightarrow> st\<lparr>task_done_counter := task_done_counter st + 1\<rparr>)
          else if m_type = ''WRKR_DIE'' then
            st\<lparr>worker_map := snd (remove_worker d w_id (worker_map st))\<rparr>
          else st
      | _ \<Rightarrow> st)"

text \<open>Lines 278-283. \<open>spin_up_workers\<close> is handed the list \<open>next_worker_q\<close> itself and may
  change it.\<close>

definition spin_up :: "deps \<Rightarrow> pull_tasks_state \<Rightarrow> pull_tasks_state" where
  "spin_up d st =
     (let (wm, q) = spin_up_workers d (next_worker_q st) (worker_map st)
      in st\<lparr>worker_map := wm, next_worker_q := q\<rparr>)"

text \<open>Lines 312-315: a task is put on the queue of its type, which is created, with a
  zero worker count, when the type is new.\<close>

definition put_task :: "task_type \<Rightarrow> task \<Rightarrow> pull_tasks_state \<Rightarrow> pull_tasks_state" where
  "put_task task_type task st =
     (let st = (if task_type \<notin> dom (task_queues st)
                then st\<lparr>task_queues := (task_queues st)(task_type \<mapsto> []),
                        worker_map := (worker_map st)
                          \<lparr>total_worker_type_counts :=
                             (total_worker_type_counts (worker_map st))(task_type \<mapsto> 0)\<rparr>\<rparr>
                else st)
      in st\<lparr>task_queues :=
               (task_queues st)(task_type \<mapsto> the (task_queues st task_type) @ [task]),
            history := history st @ [Arrived task_type task]\<rparr>)"

text \<open>Lines 306-316: the tasks of a batch, in order. The first task whose type cannot be
  derived ends the loop with the exception; the tasks before it stay queued.\<close>

fun enqueue_tasks :: "task list \<Rightarrow> pull_tasks_state \<Rightarrow> pull_tasks_state outcome" where
  "enqueue_tasks [] st = Inr st"
| "enqueue_tasks (task # tasks) st =
     (case task_type_of task of
        Inl e \<Rightarrow> Inl (e, st)
      | Inr task_type \<Rightarrow> enqueue_tasks tasks (put_task task_type task st))"

text \<open>
  Lines 287-316: a message of the Interchange. \<open>now\<close> is the clock read at line 291.
  \<open>len\<close> of an integer, and subscripting a character of a string with \<open>'task_id'\<close>, are
  TypeErrors. \<open>kill_event\<close> set stands for the \<open>break\<close> as well.
\<close>

definition recv_interchange ::
  "deps \<Rightarrow> bytes list \<Rightarrow> seconds \<Rightarrow> pull_tasks_state \<Rightarrow> pull_tasks_state outcome"
where
  "recv_interchange d frames now st =
     (let st = st\<lparr>poll_timer := 0\<rparr>
      in case frames of
           [ident, pkl_msg] \<Rightarrow>
             (case loads_tasks d pkl_msg of
                Inl e \<Rightarrow> Inl (e, st)
              | Inr tasks \<Rightarrow>
                  (let st = st\<lparr>last_interchange_contact := now\<rparr>
                   in if tasks = PStr ''STOP'' then Inr (st\<lparr>kill_event := True\<rparr>)
                      else if tasks = PInt HEARTBEAT_CODE then Inr st
                      else (case tasks of
                              PTasks ts \<Rightarrow>
                                enqueue_tasks ts
                                  (st\<lparr>task_recv_counter := task_recv_counter st + int (length ts)\<rparr>)
                            | PStr s \<Rightarrow>
                                (let st = st\<lparr>task_recv_counter :=
                                               task_recv_counter st + int (length s)\<rparr>
                                 in if s = [] then Inr st else Inl (TypeError, st))
                            | PInt n \<Rightarrow> Inl (TypeError, st)
                            | POther \<Rightarrow> Inl (TypeError, st))))
         | _ \<Rightarrow> Inl (ValueError, st))"

text \<open>Lines 318-331: nothing was received on the task socket. \<open>now\<close> is the clock read at
  line 327.\<close>

definition no_incoming :: "seconds \<Rightarrow> pull_tasks_state \<Rightarrow> pull_tasks_state" where
  "no_incoming now st =
     (let st = st\<lparr>poll_timer := backoff (poll_period st) (heartbeat_period st) (poll_timer st)\<rparr>
      in if now > last_interchange_contact st + of_int (heartbeat_threshold st)
         then st\<lparr>kill_event := True\<rparr>
         else st)"

text \<open>Lines 337-349: the scheduler, the spin-downs and the next spin-up plan.\<close>

fun remove_workers ::
  "deps \<Rightarrow> task_type list \<Rightarrow> pull_tasks_state \<Rightarrow> pull_tasks_state outcome"
where
  "remove_workers d [] st = Inr st"
| "remove_workers d (w_type # spin_downs) st =
     and_then (remove_worker_init d w_type st) (remove_workers d spin_downs)"

definition schedule :: "deps \<Rightarrow> pull_tasks_state \<Rightarrow> pull_tasks_state outcome" where
  "schedule d st =
     (let st = st\<lparr>new_worker_map :=
                    naive_scheduler d (task_queues st) (worker_count st) (new_worker_map st)
                      (to_die_count (worker_map st))\<rparr>
      in case new_worker_map st of
           None \<Rightarrow> Inr st
         | Some plan \<Rightarrow>
             (let (spin_downs, wm) = spin_down_workers d plan (worker_map st)
              in and_then (remove_workers d spin_downs (st\<lparr>worker_map := wm\<rparr>))
                   (\<lambda>st. Inr (st\<lparr>next_worker_q := get_next_worker_q d plan (worker_map st)\<rparr>))))"

text \<open>Lines 363-377: one round of the inner matching loop for a task type. The condition
  is evaluated left to right; \<open>worker_queues\<close> is taken to be a dictionary, whose
  subscript raises KeyError on a type it does not hold.\<close>

definition match_one :: "deps \<Rightarrow> task_type \<Rightarrow> pull_tasks_state \<Rightarrow> pull_tasks_state outcome" where
  "match_one d task_type st =
     (case task_queues st task_type of
        None \<Rightarrow> Inr st
      | Some [] \<Rightarrow> Inr st
      | Some (task # rest) \<Rightarrow>
          (case worker_queues (worker_map st) task_type of
             None \<Rightarrow> Inl (KeyError, st)
           | Some [] \<Rightarrow> Inr st
           | Some (w # ws) \<Rightarrow>
               (let (worker_id, wm) = get_worker d task_type (worker_map st);
                    to_send = [worker_id, pickle_dumps d (task_id task), buffer task]
                in Inr (st\<lparr>task_queues := (task_queues st)(task_type \<mapsto> rest),
                           worker_map := wm,
                           funcx_task_socket := funcx_task_socket st @ [to_send],
                           history := history st @ [Sent task_type worker_id task]\<rparr>))))"

text \<open>Line 362: \<open>for i in range(available_workers)\<close>.\<close>

fun match_rounds :: "deps \<Rightarrow> task_type \<Rightarrow> nat \<Rightarrow> pull_tasks_state \<Rightarrow> pull_tasks_state outcome" where
  "match_rounds d task_type 0 st = Inr st"
| "match_rounds d task_type (Suc n) st =
     and_then (match_one d task_type st) (match_rounds d task_type n)"

text \<open>Lines 351-362: the types of \<open>get_worker_counts\<close> in the order of the dictionary.\<close>

fun match_tasks ::
  "deps \<Rightarrow> (task_type \<times> int) list \<Rightarrow> pull_tasks_state \<Rightarrow> pull_tasks_state outcome"
where
  "match_tasks d [] st = Inr st"
| "match_tasks d ((task_type, available_workers) # current_worker_map) st =
     (if task_type = ''slots'' then match_tasks d current_worker_map st
      else and_then (match_rounds d task_type (nat available_workers) st)
             (match_tasks d current_worker_map))"

text \<open>
  What one iteration of the loop takes from outside: the clock readings, and for each
  of the two polled sockets the message received when the poll reports it readable.
\<close>

record tick =
  now_beat :: seconds
  now_sent :: seconds
  from_worker :: "bytes list option"
  from_interchange :: "bytes list option"
  now_contact :: seconds
  now_silence :: seconds

text \<open>Lines 246-377: the poll and what follows it in an iteration.\<close>

definition serve :: "deps \<Rightarrow> tick \<Rightarrow> pull_tasks_state \<Rightarrow> pull_tasks_state outcome" where
  "serve d tk st =
     (let st = (case from_worker tk of
                  None \<Rightarrow> st
                | Some frames \<Rightarrow> recv_worker d frames st);
          st = spin_up d st
      in and_then
           (case from_interchange tk of
              Some frames \<Rightarrow> recv_interchange d frames (now_contact tk) st
            | None \<Rightarrow> Inr (no_incoming (now_silence tk) st)) (\<lambda>st.
         if kill_event st then Inr st
         else and_then (schedule d st) (\<lambda>st.
              match_tasks d (get_worker_counts d (worker_map st)) st)))"

text \<open>Lines 229-377: one iteration of the loop, entered with \<open>kill_event\<close> not set.\<close>

definition pull_tasks_iter :: "deps \<Rightarrow> tick \<Rightarrow> pull_tasks_state \<Rightarrow> pull_tasks_state outcome" where
  "pull_tasks_iter d tk st =
     (let pending_task_count = task_recv_counter st - task_done_counter st;
          ready_count = ready_worker_count d (worker_map st)
      in and_then (beat (now_beat tk) (now_sent tk) st) (\<lambda>st.
         and_then (request_tasks pending_task_count ready_count st) (serve d tk)))"

text \<open>The loop over the iterations the environment provides.\<close>

fun pull_tasks_loop :: "deps \<Rightarrow> tick list \<Rightarrow> pull_tasks_state \<Rightarrow> pull_tasks_state outcome" where
  "pull_tasks_loop d [] st = Inr st"
| "pull_tasks_loop d (tk # tks) st =
     (if kill_event st then Inr st
      else and_then (pull_tasks_iter d tk st) (pull_tasks_loop d tks))"

text \<open>\<open>Manager(...).start()\<close> up to the end of the iterations given.\<close>

definition run_manager ::
  "deps \<Rightarrow> config \<Rightarrow> bytes \<Rightarrow> seconds \<Rightarrow> seconds \<Rightarrow> tick list \<Rightarrow> pull_tasks_state outcome"
where
  "run_manager d cfg msg now now' tks =
     pull_tasks_loop d tks (pull_tasks_entry msg now now' (start d (Manager_init cfg)))"

section \<open>funcx_manager.py: push_results\<close>

text \<open>
  The float arithmetic of \<open>push_results\<close>: the sum of two floats (line 406) and the true
  division of two integers (line 390), each rounded to a double by Python. The model
  takes the two operations as given and assumes nothing of them. A value of type
  \<open>seconds\<close> in \<open>push_results\<close> is the exact value of a double; doubles are compared
  exactly.
\<close>

record float_ops =
  float_add :: "seconds \<Rightarrow> seconds \<Rightarrow> seconds"
  float_div :: "int \<Rightarrow> int \<Rightarrow> seconds"

text \<open>
  The locals of \<open>push_results\<close> on top of the Manager's attributes. The thread shares
  \<open>pending_result_queue\<close> with \<open>pull_tasks\<close>, so what \<open>get\<close> returns is given by the
  environment, as a function of the timeout it is called with: an item, \<open>queue.Empty\<close>,
  or another exception (which is logged).
\<close>

record push_results_state = manager +
  items :: "bytes list"
  push_last_beat :: seconds

datatype got = Got bytes | Empty | Failed

record push_tick =
  queue_get :: "seconds \<Rightarrow> got"
  now_flush :: seconds
  now_mark :: seconds

text \<open>Line 390: \<open>max(10, self.poll_period) / 1000\<close>, a float, in seconds.\<close>

definition push_poll_period :: "float_ops \<Rightarrow> 'a manager_scheme \<Rightarrow> seconds" where
  "push_poll_period fl self = float_div fl (max 10 (poll_period self)) 1000"

text \<open>Lines 393-394.\<close>

definition push_results_entry :: "seconds \<Rightarrow> manager \<Rightarrow> push_results_state" where
  "push_results_entry now self =
     manager.extend self (push_results_state.fields [] now)"

text \<open>Lines 397-410: one iteration. \<open>now_flush\<close> is the clock read by the comparison,
  \<open>now_mark\<close> the clock read at line 407.\<close>

definition push_results_iter ::
  "float_ops \<Rightarrow> push_tick \<Rightarrow> push_results_state \<Rightarrow> push_results_state"
where
  "push_results_iter fl tk st =
     (let st = (case queue_get tk (push_poll_period fl st) of
                  Got r \<Rightarrow> st\<lparr>items := items st @ [r]\<rparr>
                | Empty \<Rightarrow> st
                | Failed \<Rightarrow> st)
      in if int (length (items st)) \<ge> max_queue_size st
            \<or> now_flush tk > float_add fl (push_last_beat st) (push_poll_period fl st)
         then (let st = st\<lparr>push_last_beat := now_mark tk\<rparr>
               in if items st \<noteq> []
                  then st\<lparr>result_outgoing := result_outgoing st @ [items st], items := []\<rparr>
                  else st)
         else st)"

text \<open>The loop: each entry of the list is one iteration entered with \<open>kill_event\<close> not
  set.\<close>

fun push_results_loop ::
  "float_ops \<Rightarrow> push_tick list \<Rightarrow> push_results_state \<Rightarrow> push_results_state"
where
  "push_results_loop fl [] st = st"
| "push_results_loop fl (tk # tks) st = push_results_loop fl tks (push_results_iter fl tk st)"

text \<open>Lines 388-410: \<open>push_results\<close> from its start to the end of the iterations
  given.\<close>

definition push_results ::
  "float_ops \<Rightarrow> seconds \<Rightarrow> push_tick list \<Rightarrow> manager \<Rightarrow> push_results_state"
where
  "push_results fl now tks self = push_results_loop fl tks (push_results_entry now self)"

section \<open>Definitions used to state the properties\<close>

text \<open>Two states of \<open>pull_tasks\<close> agree on the uplink socket, the heartbeat clock and the
  configuration.\<close>

definition quiet :: "pull_tasks_state \<Rightarrow> pull_tasks_state \<Rightarrow> bool" where
  "quiet st st' \<longleftrightarrow>
     task_incoming st' = task_incoming st \<and> last_beat st' = last_beat st \<and>
     max_queue_size st' = max_queue_size st \<and> worker_count st' = worker_count st \<and>
     heartbeat_period st' = heartbeat_period st \<and>
     heartbeat_threshold st' = heartbeat_threshold st \<and> poll_period st' = poll_period st"

text \<open>Two states of \<open>pull_tasks\<close> agree on the poll timer and the two periods it is
  computed from.\<close>

definition same_timer :: "pull_tasks_state \<Rightarrow> pull_tasks_state \<Rightarrow> bool" where
  "same_timer st st' \<longleftrightarrow>
     poll_timer st' = poll_timer st \<and> poll_period st' = poll_period st \<and>
     heartbeat_period st' = heartbeat_period st"

text \<open>The frames that lines 241-244 send: none, or the request.\<close>

definition request_frames :: "int \<Rightarrow> int \<Rightarrow> int \<Rightarrow> bytes list" where
  "request_frames backlog limit ready =
     (if backlog < limit \<and> 0 < ready
      then (case to_bytes ready 4 of Inl e \<Rightarrow> [] | Inr msg \<Rightarrow> [msg])
      else [])"

text \<open>
  A small stand-in for what is outside the two source files, to run the model on
  concrete inputs: workers are all of type RAW, the scheduler never plans anything, a
  pickled task batch is a single task id.
\<close>

definition example_deps :: deps where
  "example_deps =
     \<lparr>pickle_dumps = (\<lambda>v. case v of Str s \<Rightarrow> ''S:'' @ s | Bytes b \<Rightarrow> ''B:'' @ b),
      loads_reg_info = (\<lambda>b. if b = [] then Inl UnpicklingError else Inr [''worker_type'' \<mapsto> b]),
      loads_tasks = (\<lambda>b. if b = ''STOP'' then Inr (PStr ''STOP'')
                          else if b = ''BEAT'' then Inr (PInt HEARTBEAT_CODE)
                          else Inr (PTasks [\<lparr>task_id = Str b, buffer = ''args''\<rparr>])),
      ready_worker_count =
        (\<lambda>wm. case worker_queues wm ''RAW'' of None \<Rightarrow> 0 | Some q \<Rightarrow> int (length q)),
      register_worker =
        (\<lambda>w t wm. (None, wm\<lparr>worker_queues := (worker_queues wm)
           (t \<mapsto> (case worker_queues wm t of None \<Rightarrow> [] | Some q \<Rightarrow> q) @ [w])\<rparr>)),
      put_worker =
        (\<lambda>w wm. (None, wm\<lparr>worker_queues := (worker_queues wm)
           (''RAW'' \<mapsto> (case worker_queues wm ''RAW'' of None \<Rightarrow> [] | Some q \<Rightarrow> q) @ [w])\<rparr>)),
      remove_worker = (\<lambda>w wm. (None, wm)),
      spin_up_workers = (\<lambda>q wm. (wm, [])),
      naive_scheduler = (\<lambda>queues capacity prev to_die. None),
      spin_down_workers = (\<lambda>plan wm. ([], wm)),
      get_next_worker_q = (\<lambda>plan wm. []),
      get_worker_counts =
        (\<lambda>wm. [(''RAW'', case worker_queues wm ''RAW'' of None \<Rightarrow> 0 | Some q \<Rightarrow> int (length q))]),
      get_worker =
        (\<lambda>t wm. case worker_queues wm t of
                   Some (w # ws) \<Rightarrow> (w, wm\<lparr>worker_queues := (worker_queues wm)(t \<mapsto> ws)\<rparr>)
                 | _ \<Rightarrow> ([], wm)),
      add_worker = (\<lambda>n t wm. wm)\<rparr>"

definition example_config :: config where
  "example_config =
     \<lparr>cfg_max_queue_size = 10, cfg_max_workers = None, cfg_cores_floor = 4,
      cfg_heartbeat_threshold = 120, cfg_heartbeat_period = 30, cfg_poll_period = 100\<rparr>"

definition example_entry :: pull_tasks_state where
  "example_entry = pull_tasks_entry ''{}'' 0 0 (start example_deps (Manager_init example_config))"

definition quiet_tick :: "seconds \<Rightarrow> tick" where
  "quiet_tick now =
     \<lparr>now_beat = now, now_sent = now, from_worker = None, from_interchange = None,
      now_contact = now, now_silence = now\<rparr>"

definition example_ready :: pull_tasks_state where
  "example_ready =
     example_entry\<lparr>worker_map := (worker_map example_entry)
       \<lparr>worker_queues := [''RAW'' \<mapsto> [''0'']], pending_workers := 0, active_workers := 1\<rparr>\<rparr>"

text \<open>
  Modelled from the spec: \<open>WorkerMap.register_worker\<close> is not among the sources; the
  spec says that registering fails on a worker id that is not known. This stand-in
  treats every id as unknown: it raises and leaves the worker map as it is.
\<close>

definition stale_deps :: deps where
  "stale_deps = example_deps\<lparr>register_worker := (\<lambda>w t wm. (Some KeyError, wm))\<rparr>"

text \<open>A Manager with one queued task and a RAW worker that can be drained.\<close>

definition example_draining :: manager where
  "example_draining =
     (Manager_init example_config)
       \<lparr>worker_map := (WorkerMap_init 4)\<lparr>to_die_count := [''RAW'' \<mapsto> 0]\<rparr>,
        task_queues := [''RAW'' \<mapsto> [\<lparr>task_id = Str ''t1;RAW'', buffer = ''args''\<rparr>]]\<rparr>"

text \<open>A Manager in which the type \<open>fft\<close> has a drain counter and no task queue.\<close>

definition example_unqueued :: manager where
  "example_unqueued =
     example_draining\<lparr>worker_map := (worker_map example_draining)
       \<lparr>to_die_count := [''RAW'' \<mapsto> 0, ''fft'' \<mapsto> 0]\<rparr>\<rparr>"

text \<open>The items that the iterations of the result pusher take from the queue when they
  call \<open>get\<close> with the given timeout, in order.\<close>

fun dequeued :: "seconds \<Rightarrow> push_tick list \<Rightarrow> bytes list" where
  "dequeued timeout [] = []"
| "dequeued timeout (tk # tks) =
     (case queue_get tk timeout of
        Got r \<Rightarrow> r # dequeued timeout tks
      | Empty \<Rightarrow> dequeued timeout tks
      | Failed \<Rightarrow> dequeued timeout tks)"

text \<open>
  Float operations for the example below. Every number of the example (1/2, 3/4, 5/4,
  3/2, 7/4, 2) is a double, and so are the quotient 500 / 1000 and the sums formed, so
  on the example Python's rounded operations return the exact results.
\<close>

definition example_floats :: float_ops where
  "example_floats = \<lparr>float_add = (\<lambda>a b. a + b), float_div = (\<lambda>a b. of_int a / of_int b)\<rparr>"

text \<open>A result pusher started at clock 0 with a poll period of 500 ms, and three
  iterations: a result arrives and is flushed at clock 3/4; nothing arrives and the
  timer fires at clock 3/2; a second result arrives at clock 7/4.\<close>

definition example_pusher :: manager where
  "example_pusher = (Manager_init example_config)\<lparr>poll_period := 500\<rparr>"

definition example_pushes :: "push_tick list" where
  "example_pushes =
     [\<lparr>queue_get = (\<lambda>timeout. Got ''r1''), now_flush = 3 / 4, now_mark = 3 / 4\<rparr>,
      \<lparr>queue_get = (\<lambda>timeout. Empty), now_flush = 3 / 2, now_mark = 3 / 2\<rparr>,
      \<lparr>queue_get = (\<lambda>timeout. Got ''r2''), now_flush = 7 / 4, now_mark = 7 / 4\<rparr>]"











section \<open>Properties of TasksOutgoing.put\<close>

lemma waited_mono: "i \<le> j \<Longrightarrow> waited i \<le> waited j"
proof (induction j)
  case 0
  then show ?case by simp
next
  case (Suc j)
  show ?case
  proof (cases "i = Suc j")
    case True
    then show ?thesis by simp
  next
    case False
    with Suc.prems have "i \<le> j" by simp
    with Suc.IH have "waited i \<le> waited j" .
    then show ?thesis by simp
  qed
qed

lemma put_loop_outcome:
  "current_wait = waited timeout_ms \<Longrightarrow>
   (put_loop pollout message max_timeout timeout_ms current_wait sock
      = (Inr (), sock @ [message]) \<and>
    (\<exists>k\<ge>timeout_ms. pollout k \<and> waited k < max_timeout \<and>
       (\<forall>j. timeout_ms \<le> j \<and> j < k \<longrightarrow> \<not> pollout j)))
   \<or>
   (put_loop pollout message max_timeout timeout_ms current_wait sock
      = (Inl Again, sock) \<and>
    (\<forall>k\<ge>timeout_ms. waited k < max_timeout \<longrightarrow> \<not> pollout k))"
proof (induction pollout message max_timeout timeout_ms current_wait sock
    rule: put_loop.induct)
  case (1 pollout message max_timeout timeout_ms current_wait sock)
  show ?case
  proof (cases "current_wait < max_timeout")
    case False
    have "\<not> waited k < max_timeout" if "timeout_ms \<le> k" for k
      using waited_mono [OF that] False "1.prems" by simp
    with False show ?thesis by simp
  next
    case inside: True
    show ?thesis
    proof (cases "pollout timeout_ms")
      case True
      with inside "1.prems" have "pollout timeout_ms \<and> waited timeout_ms < max_timeout \<and>
          (\<forall>j. timeout_ms \<le> j \<and> j < timeout_ms \<longrightarrow> \<not> pollout j)"
        by auto
      then have "\<exists>k\<ge>timeout_ms. pollout k \<and> waited k < max_timeout \<and>
          (\<forall>j. timeout_ms \<le> j \<and> j < k \<longrightarrow> \<not> pollout j)"
        by blast
      with inside True show ?thesis by simp
    next
      case False
      have next_wait: "current_wait + int (timeout_ms + 1) = waited (timeout_ms + 1)"
        using "1.prems" by simp
      have unfold: "put_loop pollout message max_timeout timeout_ms current_wait sock =
          put_loop pollout message max_timeout (timeout_ms + 1)
            (current_wait + int (timeout_ms + 1)) sock"
        using inside False by simp
      from "1.IH" [OF inside False next_wait]
      show ?thesis
      proof (elim disjE conjE exE)
        fix k
        assume r: "put_loop pollout message max_timeout (timeout_ms + 1)
            (current_wait + int (timeout_ms + 1)) sock = (Inr (), sock @ [message])"
          and k: "timeout_ms + 1 \<le> k" "pollout k" "waited k < max_timeout"
            "\<forall>j. timeout_ms + 1 \<le> j \<and> j < k \<longrightarrow> \<not> pollout j"
        have "\<forall>j. timeout_ms \<le> j \<and> j < k \<longrightarrow> \<not> pollout j"
        proof (intro allI impI)
          fix j assume j: "timeout_ms \<le> j \<and> j < k"
          show "\<not> pollout j"
          proof (cases "j = timeout_ms")
            case True
            with False show ?thesis by simp
          next
            case False
            with j have "timeout_ms + 1 \<le> j \<and> j < k" by simp
            with k(4) show ?thesis by blast
          qed
        qed
        moreover from k(1) have "timeout_ms \<le> k" by simp
        ultimately have "\<exists>k\<ge>timeout_ms. pollout k \<and> waited k < max_timeout \<and>
            (\<forall>j. timeout_ms \<le> j \<and> j < k \<longrightarrow> \<not> pollout j)"
          using k(2,3) by blast
        with r unfold show ?thesis by simp
      next
        assume r: "put_loop pollout message max_timeout (timeout_ms + 1)
            (current_wait + int (timeout_ms + 1)) sock = (Inl Again, sock)"
          and none: "\<forall>k\<ge>timeout_ms + 1. waited k < max_timeout \<longrightarrow> \<not> pollout k"
        have "\<forall>k\<ge>timeout_ms. waited k < max_timeout \<longrightarrow> \<not> pollout k"
        proof (intro allI impI)
          fix k assume k: "timeout_ms \<le> k" "waited k < max_timeout"
          show "\<not> pollout k"
          proof (cases "k = timeout_ms")
            case True
            with False show ?thesis by simp
          next
            case False
            with k(1) have "timeout_ms + 1 \<le> k" by simp
            with none k(2) show ?thesis by blast
          qed
        qed
        with r unfold show ?thesis by simp
      qed
    qed
  qed
qed

text \<open>
  Claim C10. Every call of \<open>TasksOutgoing.put\<close> ends in one of two ways. Either it
  returns normally and the message has been appended to the socket exactly once: then
  some poll made while \<open>current_wait < max_timeout\<close> found the socket writable, and no
  earlier poll did. Or it raises \<open>zmq.error.Again\<close> and the socket is as it was: then
  no poll made while \<open>current_wait < max_timeout\<close> found the socket writable. The two
  outcomes exclude each other, and there is no third (the function is total).
\<close>

theorem put_sends_once_or_raises:
  "(put pollout message max_timeout sock = (Inr (), sock @ [message]) \<and>
    (\<exists>k. pollout k \<and> waited k < max_timeout \<and> (\<forall>j<k. \<not> pollout j)))
   \<or>
   (put pollout message max_timeout sock = (Inl Again, sock) \<and>
    (\<forall>k. waited k < max_timeout \<longrightarrow> \<not> pollout k))"
  using put_loop_outcome [of 0 0 pollout message max_timeout sock]
  by (simp add: put_def)

theorem put_sends_once_or_raises_witness:
  "put (\<lambda>k. 2 \<le> k) ''task'' 1000 [] = (Inr (), [''task'']) \<and>
   put (\<lambda>k. False) ''task'' 3 [''old''] = (Inl Again, [''old''])"
proof -
  have w3: "waited 3 = 6"
    by (simp add: numeral_eq_Suc)
  have "\<not> (\<forall>k. waited k < 1000 \<longrightarrow> \<not> 2 \<le> k)"
    using w3 by (auto intro!: exI [of _ 3])
  then have a: "put (\<lambda>k. 2 \<le> k) ''task'' 1000 [] = (Inr (), [''task''])"
    using put_sends_once_or_raises [of "\<lambda>k. 2 \<le> k" "''task''" 1000 "[]"] by auto
  have b: "put (\<lambda>k. False) ''task'' 3 [''old''] = (Inl Again, [''old''])"
    using put_sends_once_or_raises [of "\<lambda>k. False" "''task''" 3 "[''old'']"] by auto
  show ?thesis using a b by simp
qed

section \<open>Shared lemmas: outcomes, frames, the example state\<close>

lemma final_simps [simp]: "final (Inr s) = s" "final (Inl (e, s)) = s"
  by (simp_all add: final_def)

lemma and_then_simps [simp]: "and_then (Inr s) f = f s" "and_then (Inl x) f = Inl x"
  by (simp_all add: and_then_def)

lemma final_and_then_rel:
  assumes "R st (final r)"
    and "\<And>s. r = Inr s \<Longrightarrow> R s (final (f s))"
    and "\<And>a b c. R a b \<Longrightarrow> R b c \<Longrightarrow> R a c"
  shows "R st (final (and_then r f))"
proof (cases r)
  case (Inl x)
  with assms(1) show ?thesis by simp
next
  case (Inr s)
  with assms(1) have "R st s" by simp
  moreover from Inr assms(2) have "R s (final (f s))" by simp
  ultimately have "R st (final (f s))" by (rule assms(3))
  with Inr show ?thesis by simp
qed

lemma quiet_refl: "quiet st st"
  by (simp add: quiet_def)

lemma quiet_trans: "quiet a b \<Longrightarrow> quiet b c \<Longrightarrow> quiet a c"
  by (simp add: quiet_def)

lemma quiet_and_then:
  "quiet st (final r) \<Longrightarrow> (\<And>s. r = Inr s \<Longrightarrow> quiet s (final (f s))) \<Longrightarrow>
   quiet st (final (and_then r f))"
  by (rule final_and_then_rel [where R = quiet]) (auto intro: quiet_trans)

lemma quiet_recv_worker: "quiet st (recv_worker d frames st)"
  by (simp add: recv_worker_def quiet_def Let_def
      split: list.split sum.split option.split prod.split)

lemma quiet_spin_up: "quiet st (spin_up d st)"
  by (simp add: spin_up_def quiet_def split: prod.split)

lemma quiet_put_task: "quiet st (put_task tt t st)"
  by (simp add: put_task_def quiet_def Let_def)

lemma quiet_enqueue_tasks: "quiet st (final (enqueue_tasks ts st))"
proof (induction ts arbitrary: st)
  case Nil
  show ?case by (simp add: quiet_refl)
next
  case (Cons t ts)
  show ?case
  proof (cases "task_type_of t")
    case (Inl e)
    then show ?thesis by (simp add: quiet_refl)
  next
    case (Inr tt)
    have "quiet st (final (enqueue_tasks ts (put_task tt t st)))"
      using quiet_put_task Cons.IH by (rule quiet_trans)
    with Inr show ?thesis by simp
  qed
qed

lemma quiet_recv_interchange: "quiet st (final (recv_interchange d frames now st))"
proof -
  have q: "quiet st (final (enqueue_tasks ts st'))" if "quiet st st'" for ts st'
    using that quiet_enqueue_tasks by (rule quiet_trans)
  show ?thesis
    by (auto simp add: recv_interchange_def Let_def
        split: list.split sum.split payload.split intro!: q) (simp_all add: quiet_def)
qed

lemma quiet_no_incoming: "quiet st (no_incoming now st)"
  by (simp add: no_incoming_def quiet_def Let_def)

lemma quiet_remove_worker_init: "quiet st (final (remove_worker_init d t st))"
  by (simp add: remove_worker_init_def quiet_def Let_def split: option.split)

lemma quiet_remove_workers: "quiet st (final (remove_workers d ts st))"
proof (induction ts arbitrary: st)
  case Nil
  show ?case by (simp add: quiet_refl)
next
  case (Cons t ts)
  show ?case
    by (simp, rule quiet_and_then) (auto intro: quiet_remove_worker_init Cons.IH)
qed

lemma quiet_schedule: "quiet st (final (schedule d st))"
proof -
  have "quiet st (final (and_then (remove_workers d ts st') f))"
    if "quiet st st'" "\<And>s. quiet s (final (f s))" for ts st' f
    by (rule quiet_trans [OF that(1)], rule quiet_and_then)
      (auto intro: quiet_remove_workers that(2))
  then show ?thesis
    by (auto simp add: schedule_def Let_def split: option.split prod.split)
      (simp_all add: quiet_def)
qed

lemma quiet_match_one: "quiet st (final (match_one d t st))"
  by (simp add: match_one_def quiet_def Let_def split: option.split list.split prod.split)

lemma quiet_match_rounds: "quiet st (final (match_rounds d t n st))"
proof (induction n arbitrary: st)
  case 0
  show ?case by (simp add: quiet_refl)
next
  case (Suc n)
  show ?case
    by (simp, rule quiet_and_then) (auto intro: quiet_match_one Suc.IH)
qed

lemma quiet_match_tasks: "quiet st (final (match_tasks d m st))"
proof (induction m arbitrary: st)
  case Nil
  show ?case by (simp add: quiet_refl)
next
  case (Cons p m)
  obtain t n where p: "p = (t, n)" by (cases p)
  show ?case
  proof (cases "t = ''slots''")
    case True
    with p Cons.IH show ?thesis by simp
  next
    case False
    have "quiet st (final (and_then (match_rounds d t (nat n) st) (match_tasks d m)))"
      by (rule quiet_and_then) (auto intro: quiet_match_rounds Cons.IH)
    with p False show ?thesis by simp
  qed
qed


lemma quiet_serve: "quiet st (final (serve d tk st))"
proof -
  define st1 where "st1 = (case from_worker tk of None \<Rightarrow> st
                            | Some frames \<Rightarrow> recv_worker d frames st)"
  define st2 where "st2 = spin_up d st1"
  define r where "r = (case from_interchange tk of
                         Some frames \<Rightarrow> recv_interchange d frames (now_contact tk) st2
                       | None \<Rightarrow> Inr (no_incoming (now_silence tk) st2))"
  have q1: "quiet st st1"
    by (simp add: st1_def quiet_refl quiet_recv_worker split: option.split)
  have q2: "quiet st st2"
    using q1 quiet_spin_up unfolding st2_def by (rule quiet_trans)
  have q3: "quiet st2 (final r)"
    by (simp add: r_def quiet_recv_interchange quiet_no_incoming split: option.split)
  have q4: "quiet s (final (if kill_event s then Inr s
              else and_then (schedule d s) (\<lambda>st.
                match_tasks d (get_worker_counts d (worker_map st)) st)))" for s
  proof (cases "kill_event s")
    case True
    then show ?thesis by (simp add: quiet_refl)
  next
    case False
    have "quiet s (final (and_then (schedule d s) (\<lambda>st.
                match_tasks d (get_worker_counts d (worker_map st)) st)))"
      by (rule quiet_and_then) (auto intro: quiet_schedule quiet_match_tasks)
    with False show ?thesis by simp
  qed
  have "quiet st2 (final (and_then r (\<lambda>s. if kill_event s then Inr s
              else and_then (schedule d s) (\<lambda>st.
                match_tasks d (get_worker_counts d (worker_map st)) st))))"
    using q3 q4 by (rule quiet_and_then)
  with q2 have "quiet st (final (and_then r (\<lambda>s. if kill_event s then Inr s
              else and_then (schedule d s) (\<lambda>st.
                match_tasks d (get_worker_counts d (worker_map st)) st))))"
    by (rule quiet_trans)
  then show ?thesis
    unfolding serve_def Let_def r_def st2_def st1_def .
qed

lemma le_bytes_heartbeat: "le_bytes 4 HEARTBEAT_CODE = [CHR 0xFF, CHR 0xFF, CHR 0xFF, CHR 0xFF]"
  unfolding HEARTBEAT_CODE_def by code_simp

lemma to_bytes_heartbeat: "to_bytes HEARTBEAT_CODE 4 = Inr [CHR 0xFF, CHR 0xFF, CHR 0xFF, CHR 0xFF]"
  using le_bytes_heartbeat by (simp add: to_bytes_def HEARTBEAT_CODE_def)

lemma heartbeat_eq:
  "heartbeat self = Inr (self\<lparr>task_incoming := task_incoming self @ [[CHR 0xFF, CHR 0xFF, CHR 0xFF, CHR 0xFF]]\<rparr>)"
  by (simp add: heartbeat_def to_bytes_heartbeat)

lemma beat_eq:
  "beat now now' st =
     Inr (if last_beat st + of_int (heartbeat_period st) < now
          then st\<lparr>task_incoming := task_incoming st @ [[CHR 0xFF, CHR 0xFF, CHR 0xFF, CHR 0xFF]],
                  last_beat := now'\<rparr>
          else st)"
  by (simp add: beat_def heartbeat_eq)

lemma request_tasks_final:
  "task_incoming (final (request_tasks p r st)) =
     task_incoming st @ request_frames p (max_queue_size st) r \<and>
   last_beat (final (request_tasks p r st)) = last_beat st \<and>
   max_queue_size (final (request_tasks p r st)) = max_queue_size st"
  by (simp add: request_tasks_def request_frames_def split: sum.split)

lemma iter_uplink:
  "task_incoming (final (pull_tasks_iter d tk st)) =
     task_incoming st
     @ (if last_beat st + of_int (heartbeat_period st) < now_beat tk
        then [[CHR 0xFF, CHR 0xFF, CHR 0xFF, CHR 0xFF]] else [])
     @ request_frames (task_recv_counter st - task_done_counter st) (max_queue_size st)
         (ready_worker_count d (worker_map st))
   \<and> last_beat (final (pull_tasks_iter d tk st)) =
       (if last_beat st + of_int (heartbeat_period st) < now_beat tk
        then now_sent tk else last_beat st)"
proof -
  define st1 where "st1 = final (beat (now_beat tk) (now_sent tk) st)"
  define p where "p = task_recv_counter st - task_done_counter st"
  define r where "r = ready_worker_count d (worker_map st)"
  have b: "beat (now_beat tk) (now_sent tk) st = Inr st1"
    by (simp add: st1_def beat_eq)
  have it: "pull_tasks_iter d tk st = and_then (request_tasks p r st1) (serve d tk)"
    by (simp add: pull_tasks_iter_def Let_def b p_def r_def)
  have "quiet (final (request_tasks p r st1)) (final (and_then (request_tasks p r st1) (serve d tk)))"
    by (rule quiet_and_then) (auto intro: quiet_refl quiet_serve)
  then have "task_incoming (final (pull_tasks_iter d tk st)) =
        task_incoming (final (request_tasks p r st1))"
      "last_beat (final (pull_tasks_iter d tk st)) = last_beat (final (request_tasks p r st1))"
    by (simp_all add: it quiet_def)
  moreover have "max_queue_size st1 = max_queue_size st"
    by (simp add: st1_def beat_eq)
  ultimately show ?thesis
    using request_tasks_final [of p r st1]
    by (simp add: st1_def beat_eq p_def r_def)
qed


lemma example_entry_fields:
  "task_incoming example_entry = [''{}'']"
  "last_beat example_entry = 0"
  "heartbeat_period example_entry = 30"
  "max_queue_size example_entry = 14"
  "poll_timer example_entry = 100"
  "poll_period example_entry = 100"
  "task_recv_counter example_entry = 0"
  "task_done_counter example_entry = 0"
  "worker_queues (worker_map example_entry) = Map.empty"
  "pending_workers (worker_map example_entry) = 1"
  "active_workers (worker_map example_entry) = 0"
  by (simp_all add: example_entry_def pull_tasks_entry_def start_def Manager_init_def
      example_config_def example_deps_def WorkerMap_init_def Let_def
      manager.defs pull_tasks_state.defs)

lemma length_le_bytes: "length (le_bytes k n) = k"
  by (induction k arbitrary: n) auto

lemma from_bytes_le_bytes: "0 \<le> n \<Longrightarrow> n < 256 ^ k \<Longrightarrow> from_bytes (le_bytes k n) = n"
proof (induction k arbitrary: n)
  case 0
  then show ?case by simp
next
  case (Suc k)
  have "n div 256 < 256 ^ k"
    using Suc.prems by (simp add: div_less_iff_less_mult mult.commute)
  moreover have "0 \<le> n div 256"
    using Suc.prems by simp
  ultimately have "from_bytes (le_bytes k (n div 256)) = n div 256"
    using Suc.IH by blast
  moreover have "(of_char (char_of (n mod 256)) :: int) = n mod 256"
    by simp
  ultimately show ?case by simp
qed

lemma iter_config:
  "max_queue_size (final (pull_tasks_iter d tk st)) = max_queue_size st \<and>
   worker_count (final (pull_tasks_iter d tk st)) = worker_count st"
proof -
  define st1 where "st1 = final (beat (now_beat tk) (now_sent tk) st)"
  define p where "p = task_recv_counter st - task_done_counter st"
  define r where "r = ready_worker_count d (worker_map st)"
  have b: "beat (now_beat tk) (now_sent tk) st = Inr st1"
    by (simp add: st1_def beat_eq)
  have it: "pull_tasks_iter d tk st = and_then (request_tasks p r st1) (serve d tk)"
    by (simp add: pull_tasks_iter_def Let_def b p_def r_def)
  have "quiet (final (request_tasks p r st1)) (final (pull_tasks_iter d tk st))"
    unfolding it by (rule quiet_and_then) (auto intro: quiet_refl quiet_serve)
  moreover have "max_queue_size (final (request_tasks p r st1)) = max_queue_size st1"
      "worker_count (final (request_tasks p r st1)) = worker_count st1"
    by (simp_all add: request_tasks_def split: sum.split)
  moreover have "max_queue_size st1 = max_queue_size st" "worker_count st1 = worker_count st"
    by (simp_all add: st1_def beat_eq)
  ultimately show ?thesis by (simp add: quiet_def)
qed

lemma loop_config:
  "max_queue_size (final (pull_tasks_loop d tks st)) = max_queue_size st \<and>
   worker_count (final (pull_tasks_loop d tks st)) = worker_count st"
proof (induction tks arbitrary: st)
  case Nil
  show ?case by simp
next
  case (Cons tk tks)
  show ?case
  proof (cases "kill_event st")
    case True
    then show ?thesis by simp
  next
    case False
    show ?thesis
    proof (cases "pull_tasks_iter d tk st")
      case (Inl x)
      with False iter_config [of d tk st] show ?thesis
        by (cases x) simp
    next
      case (Inr s)
      with False iter_config [of d tk st] Cons.IH [of s] show ?thesis by simp
    qed
  qed
qed

lemma entry_config:
  "max_queue_size (pull_tasks_entry msg now now' (start d (Manager_init cfg))) =
     cfg_max_queue_size cfg +
     worker_count (pull_tasks_entry msg now now' (start d (Manager_init cfg)))"
  by (simp add: pull_tasks_entry_def start_def Manager_init_def Let_def manager.defs)

lemma le_bytes_one: "le_bytes 4 1 = [CHR 0x01, CHR 0x00, CHR 0x00, CHR 0x00]"
  by code_simp

section \<open>Heartbeats and capacity requests\<close>

text \<open>
  Claim C9, as the code has it. In every iteration of the dispatch loop the messages
  sent on the task socket are, in this order: one heartbeat frame, the 4-byte
  little-endian encoding of \<open>0xFFFFFFFF\<close>, when the clock read at line 237 is strictly
  later than \<open>last_beat + heartbeat_period\<close>, and no heartbeat otherwise; then the
  capacity request, if one is due. \<open>last_beat\<close> becomes the clock read after the send
  when a heartbeat was sent and is unchanged otherwise.
\<close>

theorem heartbeat_when_overdue:
  "task_incoming (final (pull_tasks_iter d tk st)) =
     task_incoming st
     @ (if last_beat st + of_int (heartbeat_period st) < now_beat tk
        then [le_bytes 4 (2 ^ 32 - 1)] else [])
     @ request_frames (task_recv_counter st - task_done_counter st) (max_queue_size st)
         (ready_worker_count d (worker_map st))
   \<and> le_bytes 4 (2 ^ 32 - 1) = [CHR 0xFF, CHR 0xFF, CHR 0xFF, CHR 0xFF]
   \<and> last_beat (final (pull_tasks_iter d tk st)) =
       (if last_beat st + of_int (heartbeat_period st) < now_beat tk
        then now_sent tk else last_beat st)"
  using iter_uplink [of d tk st] le_bytes_heartbeat
  by (simp add: HEARTBEAT_CODE_def)

text \<open>The claim as stated fails when the clock is exactly \<open>last_beat + heartbeat_period\<close>:
  with \<open>last_beat = 0\<close>, a period of 30 s and the clock at 30, nothing is sent and
  \<open>last_beat\<close> stays.\<close>

theorem heartbeat_at_period_counterexample:
  "last_beat example_entry + of_int (heartbeat_period example_entry) \<le> now_beat (quiet_tick 30)
   \<and> task_incoming (final (pull_tasks_iter example_deps (quiet_tick 30) example_entry)) =
       task_incoming example_entry
   \<and> last_beat (final (pull_tasks_iter example_deps (quiet_tick 30) example_entry)) =
       last_beat example_entry"
  using iter_uplink [of example_deps "quiet_tick 30" example_entry]
  by (simp add: example_entry_fields quiet_tick_def request_frames_def example_deps_def)


text \<open>
  Claim C3. In every iteration in which the ready worker count fits in four bytes, the
  messages sent on the task socket after the heartbeat step are: the 4-byte
  little-endian encoding of the ready worker count if the backlog
  \<open>task_recv_counter - task_done_counter\<close> is below \<open>max_queue_size\<close> and the ready worker
  count is positive, and nothing otherwise. The frame has four bytes and decodes to the
  count. In every state the Manager reaches, \<open>max_queue_size\<close> is the constructor
  argument plus \<open>worker_count\<close>.
\<close>

theorem capacity_request:
  "(ready_worker_count d (worker_map st) < 2 ^ 32 \<longrightarrow>
      task_incoming (final (pull_tasks_iter d tk st)) =
        task_incoming (final (beat (now_beat tk) (now_sent tk) st))
        @ (if task_recv_counter st - task_done_counter st < max_queue_size st
              \<and> 0 < ready_worker_count d (worker_map st)
           then [le_bytes 4 (ready_worker_count d (worker_map st))] else [])
      \<and> length (le_bytes 4 (ready_worker_count d (worker_map st))) = 4
      \<and> (0 \<le> ready_worker_count d (worker_map st) \<longrightarrow>
           from_bytes (le_bytes 4 (ready_worker_count d (worker_map st))) =
           ready_worker_count d (worker_map st)))
   \<and> max_queue_size (final (run_manager d cfg msg now now' tks)) =
       cfg_max_queue_size cfg + worker_count (final (run_manager d cfg msg now now' tks))"
proof -
  have "from_bytes (le_bytes 4 r) = r" if "0 \<le> r" "r < 2 ^ 32" for r :: int
    using that from_bytes_le_bytes [of r 4] by simp
  moreover have "request_frames p m r = (if p < m \<and> 0 < r then [le_bytes 4 r] else [])"
    if "r < 2 ^ 32" for p m r
    using that by (simp add: request_frames_def to_bytes_def)
  ultimately show ?thesis
    using iter_uplink [of d tk st] loop_config entry_config [of msg now now' d cfg]
    by (simp add: beat_eq length_le_bytes run_manager_def)
qed

theorem capacity_request_witness:
  "ready_worker_count example_deps (worker_map example_ready) < 2 ^ 32 \<and>
   task_incoming (final (pull_tasks_iter example_deps (quiet_tick 1) example_ready)) =
     [''{}'', [CHR 0x01, CHR 0x00, CHR 0x00, CHR 0x00]] \<and>
   from_bytes [CHR 0x01, CHR 0x00, CHR 0x00, CHR 0x00] = 1 \<and>
   max_queue_size (final (run_manager example_deps example_config ''{}'' 0 0 [quiet_tick 1])) =
     10 + 4"
proof -
  have r: "ready_worker_count example_deps (worker_map example_ready) = 1"
    by (simp add: example_ready_def example_deps_def)
  have w: "worker_count (final (run_manager example_deps example_config ''{}'' 0 0 [quiet_tick 1])) = 4"
    using loop_config [of example_deps "[quiet_tick 1]"]
    by (simp add: run_manager_def pull_tasks_entry_def start_def Manager_init_def Let_def
        manager.defs example_config_def)
  show ?thesis
    using capacity_request [of example_deps example_ready "quiet_tick 1" example_config
        "''{}''" 0 0 "[quiet_tick 1]"] r w
    by (simp add: beat_eq example_ready_def example_entry_fields quiet_tick_def le_bytes_one
        example_config_def)
qed

section \<open>The poll timer\<close>

lemma same_timer_refl: "same_timer st st"
  by (simp add: same_timer_def)

lemma same_timer_trans: "same_timer a b \<Longrightarrow> same_timer b c \<Longrightarrow> same_timer a c"
  by (simp add: same_timer_def)

lemma same_timer_and_then:
  "same_timer st (final r) \<Longrightarrow> (\<And>s. r = Inr s \<Longrightarrow> same_timer s (final (f s))) \<Longrightarrow>
   same_timer st (final (and_then r f))"
  by (rule final_and_then_rel [where R = same_timer]) (auto intro: same_timer_trans)

lemma same_timer_beat: "same_timer st (final (beat now now' st))"
  by (simp add: beat_eq same_timer_def)

lemma same_timer_request_tasks: "same_timer st (final (request_tasks p r st))"
  by (simp add: request_tasks_def same_timer_def split: sum.split)

lemma same_timer_recv_worker: "same_timer st (recv_worker d frames st)"
  by (simp add: recv_worker_def same_timer_def Let_def
      split: list.split sum.split option.split prod.split)

lemma same_timer_spin_up: "same_timer st (spin_up d st)"
  by (simp add: spin_up_def same_timer_def split: prod.split)

lemma same_timer_remove_worker_init: "same_timer st (final (remove_worker_init d t st))"
  by (simp add: remove_worker_init_def same_timer_def Let_def split: option.split)

lemma same_timer_remove_workers: "same_timer st (final (remove_workers d ts st))"
proof (induction ts arbitrary: st)
  case Nil
  show ?case by (simp add: same_timer_refl)
next
  case (Cons t ts)
  show ?case
    by (simp, rule same_timer_and_then) (auto intro: same_timer_remove_worker_init Cons.IH)
qed

lemma same_timer_schedule: "same_timer st (final (schedule d st))"
proof -
  have "same_timer st (final (and_then (remove_workers d ts st') f))"
    if "same_timer st st'" "\<And>s. same_timer s (final (f s))" for ts st' f
    by (rule same_timer_trans [OF that(1)], rule same_timer_and_then)
      (auto intro: same_timer_remove_workers that(2))
  then show ?thesis
    by (auto simp add: schedule_def Let_def split: option.split prod.split)
      (simp_all add: same_timer_def)
qed

lemma same_timer_match_one: "same_timer st (final (match_one d t st))"
  by (simp add: match_one_def same_timer_def Let_def split: option.split list.split prod.split)

lemma same_timer_match_rounds: "same_timer st (final (match_rounds d t n st))"
proof (induction n arbitrary: st)
  case 0
  show ?case by (simp add: same_timer_refl)
next
  case (Suc n)
  show ?case
    by (simp, rule same_timer_and_then) (auto intro: same_timer_match_one Suc.IH)
qed

lemma same_timer_match_tasks: "same_timer st (final (match_tasks d m st))"
proof (induction m arbitrary: st)
  case Nil
  show ?case by (simp add: same_timer_refl)
next
  case (Cons p m)
  obtain t n where p: "p = (t, n)" by (cases p)
  show ?case
  proof (cases "t = ''slots''")
    case True
    with p Cons.IH show ?thesis by simp
  next
    case False
    have "same_timer st (final (and_then (match_rounds d t (nat n) st) (match_tasks d m)))"
      by (rule same_timer_and_then) (auto intro: same_timer_match_rounds Cons.IH)
    with p False show ?thesis by simp
  qed
qed

lemma serve_poll_timer:
  assumes "from_interchange tk = None"
  shows "poll_timer (final (serve d tk st)) =
           backoff (poll_period st) (heartbeat_period st) (poll_timer st)"
proof -
  define st3 where "st3 = spin_up d (case from_worker tk of None \<Rightarrow> st
                            | Some frames \<Rightarrow> recv_worker d frames st)"
  define rest where "rest = (\<lambda>s. if kill_event s then Inr s
              else and_then (schedule d s) (\<lambda>st.
                match_tasks d (get_worker_counts d (worker_map st)) st))"
  have "same_timer st (case from_worker tk of None \<Rightarrow> st | Some frames \<Rightarrow> recv_worker d frames st)"
    by (simp add: same_timer_refl same_timer_recv_worker split: option.split)
  then have t3: "same_timer st st3"
    unfolding st3_def using same_timer_spin_up by (rule same_timer_trans)
  have t4: "same_timer s (final (rest s))" for s
  proof (cases "kill_event s")
    case True
    then show ?thesis by (simp add: rest_def same_timer_refl)
  next
    case False
    have "same_timer s (final (and_then (schedule d s) (\<lambda>st.
                match_tasks d (get_worker_counts d (worker_map st)) st)))"
      by (rule same_timer_and_then) (auto intro: same_timer_schedule same_timer_match_tasks)
    with False show ?thesis by (simp add: rest_def)
  qed
  have sv: "serve d tk st = rest (no_incoming (now_silence tk) st3)"
    unfolding serve_def Let_def st3_def rest_def using assms by simp
  have n: "poll_timer (no_incoming now s) = backoff (poll_period s) (heartbeat_period s) (poll_timer s)"
    for now s
    by (simp add: no_incoming_def Let_def)
  show ?thesis
    using t3 t4 [of "no_incoming (now_silence tk) st3"]
    by (simp add: sv n same_timer_def)
qed

text \<open>
  Claim C4, as the code has it. When nothing is received on the task socket, the part
  of the iteration from the poll on leaves the poll timer at
  \<open>min (heartbeat_period * 1000) (2 * p)\<close>, where \<open>p\<close> is the poll timer, or the initial
  poll period when the poll timer is 0. Starting from 0 the next value is therefore
  twice the initial poll period (capped by the heartbeat period); the specification's
  formula gives the same value when the poll timer is not 0 and its double is at least
  the initial poll period.
\<close>

theorem backoff_doubles:
  "(from_interchange tk = None \<longrightarrow>
      poll_timer (final (serve d tk st)) =
        min (heartbeat_period st * 1000)
            (2 * (if poll_timer st = 0 then poll_period st else poll_timer st)))
   \<and> backoff period hb timer =
       min (hb * 1000) (2 * (if timer = 0 then period else timer))
   \<and> backoff period hb 0 = min (hb * 1000) (2 * period)
   \<and> (timer \<noteq> 0 \<and> period \<le> 2 * timer \<longrightarrow>
        backoff period hb timer = backoff_spec period hb timer)"
  using serve_poll_timer [of tk d st]
  by (auto simp add: backoff_def backoff_spec_def Let_def max_def mult.commute)

theorem backoff_doubles_witness:
  "poll_timer (final (serve example_deps (quiet_tick 1) example_entry)) = 200 \<and>
   backoff 100 30 0 = 200 \<and> backoff 100 30 200 = 400 \<and> backoff 100 30 20000 = 30000 \<and>
   backoff 100 30 200 = backoff_spec 100 30 200"
  using backoff_doubles [of "quiet_tick 1" example_deps example_entry 100 30 200]
    backoff_doubles [of "quiet_tick 1" example_deps example_entry 100 30 0]
    backoff_doubles [of "quiet_tick 1" example_deps example_entry 100 30 20000]
  by (simp add: quiet_tick_def example_entry_fields)

text \<open>The claim as stated fails: from a poll timer of 0, with a poll period of 100 ms and
  a heartbeat period of 30 s, an iteration without a message leaves the timer at 200,
  and the formula gives 100.\<close>

theorem backoff_from_zero_counterexample:
  "poll_timer (example_entry\<lparr>poll_timer := 0\<rparr>) = 0 \<and>
   poll_period (example_entry\<lparr>poll_timer := 0\<rparr>) = 100 \<and>
   heartbeat_period (example_entry\<lparr>poll_timer := 0\<rparr>) = 30 \<and>
   poll_timer (final (serve example_deps (quiet_tick 1) (example_entry\<lparr>poll_timer := 0\<rparr>))) = 200 \<and>
   backoff_spec 100 30 0 = 100"
  using serve_poll_timer [of "quiet_tick 1" example_deps "example_entry\<lparr>poll_timer := 0\<rparr>"]
  by (simp add: quiet_tick_def example_entry_fields backoff_def backoff_spec_def)


section \<open>Messages of the Interchange\<close>

text \<open>
  Claim C5, as the code has it. When the message received on the task socket
  deserializes to the HEARTBEAT sentinel, the receive branch changes two loop
  variables: \<open>last_interchange_contact\<close> becomes the clock read at line 291, and
  \<open>poll_timer\<close> is reset to 0 at line 288, as for every message received. Everything
  else (the task queues, the counters, the worker map, the sockets) is unchanged, and
  the loop goes on.
\<close>

theorem heartbeat_resets_poll_timer:
  "loads_tasks d pkl_msg = Inr (PInt HEARTBEAT_CODE) \<Longrightarrow>
   recv_interchange d [ident, pkl_msg] now st =
     Inr (st\<lparr>poll_timer := 0, last_interchange_contact := now\<rparr>)"
  by (simp add: recv_interchange_def Let_def)

theorem heartbeat_resets_poll_timer_witness:
  "loads_tasks example_deps ''BEAT'' = Inr (PInt HEARTBEAT_CODE) \<and>
   recv_interchange example_deps ['''', ''BEAT''] 5 example_entry =
     Inr (example_entry\<lparr>poll_timer := 0, last_interchange_contact := 5\<rparr>)"
proof -
  have l: "loads_tasks example_deps ''BEAT'' = Inr (PInt HEARTBEAT_CODE)"
    by (simp add: example_deps_def)
  show ?thesis
    using l heartbeat_resets_poll_timer [OF l, of "''''" 5 example_entry] by simp
qed

text \<open>The claim as stated fails on \<open>poll_timer\<close>: a heartbeat received with the poll timer
  at 100 leaves it at 0.\<close>

theorem heartbeat_poll_timer_counterexample:
  "loads_tasks example_deps ''BEAT'' = Inr (PInt HEARTBEAT_CODE) \<and>
   poll_timer example_entry = 100 \<and>
   poll_timer (final (recv_interchange example_deps ['''', ''BEAT''] 5 example_entry)) = 0"
  by (simp add: recv_interchange_def Let_def example_deps_def example_entry_fields)

lemma split_no_sep: "sep \<notin> set s \<Longrightarrow> split sep s = [s]"
  by (induction s) auto

lemma split_at_sep:
  "sep \<notin> set a \<Longrightarrow> split sep (a @ sep # rest) = a # split sep rest"
  by (induction a) auto

lemma hd_split: "hd (split sep s) = takeWhile (\<lambda>c. c \<noteq> sep) s"
  by (induction s) auto

lemma split_not_Nil: "split sep s \<noteq> []"
  by (induction s) auto

lemma suffix_after_first_eq:
  "sep \<notin> set a \<Longrightarrow> suffix_after_first sep (a @ sep # rest) = rest"
  by (induction a) (auto simp: suffix_after_first_def)

text \<open>
  Claim C6, as the code has it. The routing type of a task is the second field of its
  \<open>task_id\<close> split at \<open>;\<close>: for an id \<open>ident;rest\<close> with no \<open>;\<close> in \<open>ident\<close> it is \<open>rest\<close>
  up to its first \<open>;\<close>, which is the whole suffix after the first \<open>;\<close> exactly when
  that suffix has no \<open>;\<close> of its own. For an id with no \<open>;\<close> the derivation raises
  IndexError and the batch handler fails at that task, with the state as it was before
  the task: nothing is routed to RAW.
\<close>

theorem task_type_second_field:
  "(CHR '';'' \<notin> set s \<longrightarrow>
      task_type_of \<lparr>task_id = Str s, buffer = b\<rparr> = Inl IndexError \<and>
      enqueue_tasks (\<lparr>task_id = Str s, buffer = b\<rparr> # tasks) st = Inl (IndexError, st))
   \<and> (CHR '';'' \<notin> set ident \<longrightarrow>
      task_type_of \<lparr>task_id = Str (ident @ '';'' @ rest), buffer = b\<rparr> =
        Inr (takeWhile (\<lambda>c. c \<noteq> CHR '';'') rest))
   \<and> (CHR '';'' \<notin> set ident \<and> CHR '';'' \<notin> set rest \<longrightarrow>
      task_type_of \<lparr>task_id = Str (ident @ '';'' @ rest), buffer = b\<rparr> =
        Inr (suffix_after_first CHR '';'' (ident @ '';'' @ rest)))"
proof -
  have a: "task_type_of \<lparr>task_id = Str s, buffer = b\<rparr> = Inl IndexError"
    if "CHR '';'' \<notin> set s"
    using that by (simp add: task_type_of_def split_no_sep)
  have c: "task_type_of \<lparr>task_id = Str (ident @ '';'' @ rest), buffer = b\<rparr> =
        Inr (takeWhile (\<lambda>c. c \<noteq> CHR '';'') rest)"
    if "CHR '';'' \<notin> set ident"
  proof -
    obtain y ys where y: "split CHR '';'' rest = y # ys"
      using split_not_Nil [of "CHR '';''" rest] by (cases "split CHR '';'' rest") auto
    then have "y = takeWhile (\<lambda>c. c \<noteq> CHR '';'') rest"
      using hd_split [of "CHR '';''" rest] by simp
    with y that show ?thesis
      by (simp add: task_type_of_def split_at_sep)
  qed
  have e: "takeWhile (\<lambda>c. c \<noteq> CHR '';'') rest = rest" if "CHR '';'' \<notin> set rest"
    using that by (induction rest) auto
  show ?thesis
    using a c e suffix_after_first_eq [of "CHR '';''" ident rest] by simp
qed

theorem task_type_second_field_witness:
  "task_type_of \<lparr>task_id = Str ''t1'', buffer = ''args''\<rparr> = Inl IndexError \<and>
   enqueue_tasks [\<lparr>task_id = Str ''t1'', buffer = ''args''\<rparr>] example_entry =
     Inl (IndexError, example_entry) \<and>
   task_type_of \<lparr>task_id = Str ''t1;RAW'', buffer = ''args''\<rparr> = Inr ''RAW'' \<and>
   task_type_of \<lparr>task_id = Str ''t1;fft;v2'', buffer = ''args''\<rparr> = Inr ''fft''"
  using task_type_second_field [of "''t1''" "''args''" "[]" example_entry "''t1''" "''RAW''"]
    task_type_second_field [of "''t1''" "''args''" "[]" example_entry "''t1''" "''fft;v2''"]
  by simp

text \<open>The claim as stated fails on an id with two separators: \<open>t1;fft;v2\<close> is routed to
  \<open>fft\<close>, and the suffix after the first \<open>;\<close> is \<open>fft;v2\<close>.\<close>

theorem task_type_suffix_counterexample:
  "task_type_of \<lparr>task_id = Str ''t1;fft;v2'', buffer = ''args''\<rparr> = Inr ''fft'' \<and>
   suffix_after_first CHR '';'' ''t1;fft;v2'' = ''fft;v2''"
  by (simp add: task_type_of_def suffix_after_first_def)


section \<open>Messages of the workers\<close>

text \<open>
  Claim C8, as the code has it. Handling a REGISTER frame never raises: an exception of
  \<open>register_worker\<close> is caught and the loop goes on. But lines 256-257 decrement
  \<open>pending_workers\<close> and increment \<open>active_workers\<close> before \<open>register_worker\<close> is called:
  the worker map after the frame is the one \<open>register_worker\<close> leaves when given the
  map with the two counts already changed. So when \<open>register_worker\<close> fails and leaves
  the worker map as it got it, the two counts have changed by one each and nothing else
  has.
\<close>

theorem register_counts_before_lookup:
  "loads_reg_info d message = Inr reg_info \<Longrightarrow>
   reg_info ''worker_type'' = Some worker_type \<Longrightarrow>
   wm = (worker_map st)\<lparr>pending_workers := pending_workers (worker_map st) - 1,
                         active_workers := active_workers (worker_map st) + 1\<rparr> \<Longrightarrow>
   recv_worker d [w_id, ''REGISTER'', message] st =
     st\<lparr>worker_map := snd (register_worker d w_id worker_type wm)\<rparr> \<and>
   (register_worker d w_id worker_type wm = (Some e, wm) \<longrightarrow>
      recv_worker d [w_id, ''REGISTER'', message] st = st\<lparr>worker_map := wm\<rparr>)"
  by (simp add: recv_worker_def Let_def)

theorem register_counts_before_lookup_witness:
  "loads_reg_info stale_deps ''RAW'' = Inr [''worker_type'' \<mapsto> ''RAW''] \<and>
   register_worker stale_deps ''ghost'' ''RAW''
     ((worker_map example_entry)\<lparr>pending_workers := 0, active_workers := 1\<rparr>) =
     (Some KeyError, (worker_map example_entry)\<lparr>pending_workers := 0, active_workers := 1\<rparr>) \<and>
   recv_worker stale_deps [''ghost'', ''REGISTER'', ''RAW''] example_entry =
     example_entry\<lparr>worker_map :=
       (worker_map example_entry)\<lparr>pending_workers := 0, active_workers := 1\<rparr>\<rparr>"
proof -
  let ?wm = "(worker_map example_entry)\<lparr>pending_workers := 0, active_workers := 1\<rparr>"
  have l: "loads_reg_info stale_deps ''RAW'' = Inr [''worker_type'' \<mapsto> ''RAW'']"
    by (simp add: stale_deps_def example_deps_def)
  have k: "[''worker_type'' \<mapsto> ''RAW''] ''worker_type'' = Some ''RAW''"
    by simp
  have w: "?wm = (worker_map example_entry)
      \<lparr>pending_workers := pending_workers (worker_map example_entry) - 1,
       active_workers := active_workers (worker_map example_entry) + 1\<rparr>"
    by (simp add: example_entry_fields)
  have r: "register_worker stale_deps ''ghost'' ''RAW'' ?wm = (Some KeyError, ?wm)"
    by (simp add: stale_deps_def)
  show ?thesis
    using l r register_counts_before_lookup [OF l k w, of "''ghost''" KeyError] by simp
qed

text \<open>The claim as stated fails: a REGISTER frame of a worker id that
  \<open>register_worker\<close> rejects takes \<open>pending_workers\<close> from 1 to 0 and \<open>active_workers\<close>
  from 0 to 1.\<close>

theorem register_stale_counterexample:
  "register_worker stale_deps ''ghost'' ''RAW'' (worker_map example_entry) =
     (Some KeyError, worker_map example_entry) \<and>
   pending_workers (worker_map example_entry) = 1 \<and>
   active_workers (worker_map example_entry) = 0 \<and>
   pending_workers (worker_map
     (recv_worker stale_deps [''ghost'', ''REGISTER'', ''RAW''] example_entry)) = 0 \<and>
   active_workers (worker_map
     (recv_worker stale_deps [''ghost'', ''REGISTER'', ''RAW''] example_entry)) = 1"
  by (simp add: recv_worker_def Let_def stale_deps_def example_deps_def example_entry_fields)


section \<open>Draining a worker\<close>

text \<open>
  Claim C2, as the code has it. For a worker type that is a key of \<open>to_die_count\<close> and
  of \<open>task_queues\<close>, \<open>remove_worker_init\<close> returns normally, with \<open>to_die_count\<close> of the
  type one higher and one KILL sentinel appended to the task queue of the type: a task
  whose \<open>task_id\<close> is the pickled byte string \<open>KILL\<close> and whose \<open>buffer\<close> is the bytes
  \<open>KILL\<close>; nothing else of the Manager, or of the locals of the loop that calls it,
  changes. For a type that is not a key of \<open>to_die_count\<close> the call raises KeyError and
  changes nothing. For a type that is a key of \<open>to_die_count\<close> and not of \<open>task_queues\<close>
  it raises KeyError after the increment: the counter is one higher and no KILL
  sentinel is pushed.
\<close>

theorem remove_worker_init_effect:
  "(to_die_count (worker_map self) worker_type = Some n \<and>
    task_queues self worker_type = Some q \<longrightarrow>
      remove_worker_init d worker_type self =
        Inr (self\<lparr>worker_map := (worker_map self)
                    \<lparr>to_die_count := (to_die_count (worker_map self))(worker_type \<mapsto> n + 1)\<rparr>,
                  task_queues := (task_queues self)
                    (worker_type \<mapsto>
                       q @ [\<lparr>task_id = Bytes (pickle_dumps d (Bytes ''KILL'')),
                             buffer = ''KILL''\<rparr>])\<rparr>))
   \<and> (to_die_count (worker_map self) worker_type = None \<longrightarrow>
      remove_worker_init d worker_type self = Inl (KeyError, self))
   \<and> (to_die_count (worker_map self) worker_type = Some n \<and>
      task_queues self worker_type = None \<longrightarrow>
      remove_worker_init d worker_type self =
        Inl (KeyError,
             self\<lparr>worker_map := (worker_map self)
                    \<lparr>to_die_count := (to_die_count (worker_map self))(worker_type \<mapsto> n + 1)\<rparr>\<rparr>))"
  by (simp add: remove_worker_init_def KILL_def Let_def)

theorem remove_worker_init_effect_witness:
  "to_die_count (worker_map example_draining) ''RAW'' = Some 0 \<and>
   task_queues example_draining ''RAW'' = Some [\<lparr>task_id = Str ''t1;RAW'', buffer = ''args''\<rparr>] \<and>
   remove_worker_init example_deps ''RAW'' example_draining =
     Inr (example_draining
       \<lparr>worker_map := (worker_map example_draining)\<lparr>to_die_count := [''RAW'' \<mapsto> 1]\<rparr>,
        task_queues := [''RAW'' \<mapsto>
          [\<lparr>task_id = Str ''t1;RAW'', buffer = ''args''\<rparr>,
           \<lparr>task_id = Bytes ''B:KILL'', buffer = ''KILL''\<rparr>]]\<rparr>) \<and>
   to_die_count (worker_map example_draining) ''fft'' = None \<and>
   remove_worker_init example_deps ''fft'' example_draining = Inl (KeyError, example_draining) \<and>
   to_die_count (worker_map example_unqueued) ''fft'' = Some 0 \<and>
   task_queues example_unqueued ''fft'' = None \<and>
   remove_worker_init example_deps ''fft'' example_unqueued =
     Inl (KeyError,
          example_unqueued\<lparr>worker_map := (worker_map example_unqueued)
            \<lparr>to_die_count := [''RAW'' \<mapsto> 0, ''fft'' \<mapsto> 1]\<rparr>\<rparr>)"
proof -
  have a: "to_die_count (worker_map example_draining) ''RAW'' = Some 0"
    by (simp add: example_draining_def)
  have b: "task_queues example_draining ''RAW'' =
      Some [\<lparr>task_id = Str ''t1;RAW'', buffer = ''args''\<rparr>]"
    by (simp add: example_draining_def)
  have c: "to_die_count (worker_map example_draining) ''fft'' = None"
    by (simp add: example_draining_def)
  have e: "to_die_count (worker_map example_unqueued) ''fft'' = Some 0"
    by (simp add: example_unqueued_def)
  have f: "task_queues example_unqueued ''fft'' = None"
    by (simp add: example_unqueued_def example_draining_def)
  have u: "(to_die_count (worker_map example_unqueued))(''fft'' \<mapsto> 1) =
      [''RAW'' \<mapsto> 0, ''fft'' \<mapsto> 1]"
    by (simp add: example_unqueued_def)
  have v: "(to_die_count (worker_map example_draining))(''RAW'' \<mapsto> 1) = [''RAW'' \<mapsto> 1]"
      "(task_queues example_draining)(''RAW'' \<mapsto> qq) = [''RAW'' \<mapsto> qq]" for qq
    by (simp_all add: example_draining_def)
  have p: "pickle_dumps example_deps (Bytes ''KILL'') = ''B:KILL''"
    by (simp add: example_deps_def)
  show ?thesis
    using a b c e f
      remove_worker_init_effect [of example_draining "''RAW''" 0
        "[\<lparr>task_id = Str ''t1;RAW'', buffer = ''args''\<rparr>]" example_deps]
      remove_worker_init_effect [of example_draining "''fft''" 0 "[]" example_deps]
      remove_worker_init_effect [of example_unqueued "''fft''" 0 "[]" example_deps]
    by (simp add: u v p)
qed

text \<open>The claim as stated fails on a type without a task queue: for \<open>fft\<close>, which has a
  drain counter at 0 and no queue, the call raises KeyError with the counter at 1, and
  the task queues are as they were, without a KILL sentinel.\<close>

theorem remove_worker_init_unqueued_counterexample:
  "to_die_count (worker_map example_unqueued) ''fft'' = Some 0 \<and>
   task_queues example_unqueued ''fft'' = None \<and>
   remove_worker_init example_deps ''fft'' example_unqueued =
     Inl (KeyError,
          example_unqueued\<lparr>worker_map := (worker_map example_unqueued)
            \<lparr>to_die_count := [''RAW'' \<mapsto> 0, ''fft'' \<mapsto> 1]\<rparr>\<rparr>) \<and>
   task_queues (final (remove_worker_init example_deps ''fft'' example_unqueued)) =
     task_queues example_unqueued"
  by (simp add: remove_worker_init_def Let_def example_unqueued_def example_draining_def)


section \<open>The result pusher\<close>

lemma push_results_iter_effect:
  "let period = float_div fl (max 10 (poll_period st)) 1000;
       buf = items st @ (case queue_get tk period of
                           Got r \<Rightarrow> [r] | Empty \<Rightarrow> [] | Failed \<Rightarrow> []);
       due = (max_queue_size st \<le> int (length buf) \<or>
              float_add fl (push_last_beat st) period < now_flush tk);
       st' = push_results_iter fl tk st
   in result_outgoing st' = result_outgoing st @ (if due \<and> buf \<noteq> [] then [buf] else []) \<and>
      items st' = (if due then [] else buf) \<and>
      push_last_beat st' = (if due then now_mark tk else push_last_beat st)"
  by (cases "queue_get tk (float_div fl (max 10 (poll_period st)) 1000)")
    (auto simp add: push_results_iter_def push_poll_period_def Let_def)

lemma push_results_iter_config:
  "poll_period (push_results_iter fl tk st) = poll_period st \<and>
   max_queue_size (push_results_iter fl tk st) = max_queue_size st"
  by (cases "queue_get tk (float_div fl (max 10 (poll_period st)) 1000)")
    (auto simp add: push_results_iter_def push_poll_period_def Let_def)

lemma push_results_iter_conserves:
  "\<exists>one. result_outgoing (push_results_iter fl tk st) = result_outgoing st @ one \<and>
         [] \<notin> set one \<and>
         concat one @ items (push_results_iter fl tk st) =
           items st @ dequeued (float_div fl (max 10 (poll_period st)) 1000) [tk]"
proof -
  define period where "period = float_div fl (max 10 (poll_period st)) 1000"
  define buf where "buf = items st @ (case queue_get tk period of
                           Got r \<Rightarrow> [r] | Empty \<Rightarrow> [] | Failed \<Rightarrow> [])"
  define due where "due \<longleftrightarrow> max_queue_size st \<le> int (length buf) \<or>
              float_add fl (push_last_beat st) period < now_flush tk"
  define one where "one = (if due \<and> buf \<noteq> [] then [buf] else [])"
  have e: "result_outgoing (push_results_iter fl tk st) = result_outgoing st @ one"
      "items (push_results_iter fl tk st) = (if due then [] else buf)"
    using push_results_iter_effect [of fl st tk]
    by (simp_all add: Let_def period_def buf_def due_def one_def)
  have d: "items st @ dequeued period [tk] = buf"
    by (simp add: buf_def split: got.split)
  have "[] \<notin> set one"
    by (simp add: one_def)
  moreover have "concat one @ items (push_results_iter fl tk st) = buf"
    by (simp add: e(2) one_def)
  ultimately show ?thesis
    using e(1) d unfolding period_def by metis
qed

lemma dequeued_append: "dequeued t (tks @ tks') = dequeued t tks @ dequeued t tks'"
  by (induction tks) (auto split: got.split)

lemma push_results_loop_conserves:
  "\<exists>sent. result_outgoing (push_results_loop fl tks st) = result_outgoing st @ sent \<and>
          [] \<notin> set sent \<and>
          concat sent @ items (push_results_loop fl tks st) =
            items st @ dequeued (float_div fl (max 10 (poll_period st)) 1000) tks"
proof (induction tks arbitrary: st)
  case Nil
  show ?case by simp
next
  case (Cons tk tks)
  define period where "period = float_div fl (max 10 (poll_period st)) 1000"
  define st1 where "st1 = push_results_iter fl tk st"
  from push_results_iter_conserves [of fl tk st]
  obtain one where one: "result_outgoing st1 = result_outgoing st @ one" "[] \<notin> set one"
      "concat one @ items st1 = items st @ dequeued period [tk]"
    unfolding st1_def period_def by blast
  have p: "float_div fl (max 10 (poll_period st1)) 1000 = period"
    using push_results_iter_config [of fl tk st] by (simp add: st1_def period_def)
  from Cons.IH [of st1]
  obtain sent where sent: "result_outgoing (push_results_loop fl tks st1) =
      result_outgoing st1 @ sent" "[] \<notin> set sent"
      "concat sent @ items (push_results_loop fl tks st1) = items st1 @ dequeued period tks"
    unfolding p by blast
  have "concat (one @ sent) @ items (push_results_loop fl tks st1) =
      concat one @ items st1 @ dequeued period tks"
    using sent(3) by simp
  also have "\<dots> = items st @ dequeued period [tk] @ dequeued period tks"
    using one(3) by simp
  also have "\<dots> = items st @ dequeued period (tk # tks)"
    using dequeued_append [of period "[tk]" tks] by simp
  finally have c: "concat (one @ sent) @ items (push_results_loop fl tks st1) =
      items st @ dequeued period (tk # tks)" .
  have "result_outgoing (push_results_loop fl (tk # tks) st) = result_outgoing st @ (one @ sent)"
      "[] \<notin> set (one @ sent)"
    using one(1,2) sent(1,2) by (simp_all add: st1_def)
  with c show ?case
    unfolding period_def st1_def by (metis push_results_loop.simps(2))
qed

lemma push_results_loop_snoc:
  "push_results_loop fl (tks @ [tk]) st = push_results_iter fl tk (push_results_loop fl tks st)"
  by (induction tks arbitrary: st) auto

lemma example_pusher_run:
  "push_poll_period example_floats example_pusher = 1 / 2"
  "max_queue_size example_pusher = 14"
  "result_outgoing (push_results example_floats 0 (take 1 example_pushes) example_pusher) =
     [[''r1'']]"
  "push_last_beat (push_results example_floats 0 (take 1 example_pushes) example_pusher) = 3 / 4"
  "result_outgoing (push_results example_floats 0 (take 2 example_pushes) example_pusher) =
     [[''r1'']]"
  "push_last_beat (push_results example_floats 0 (take 2 example_pushes) example_pusher) = 3 / 2"
  "items (push_results example_floats 0 (take 2 example_pushes) example_pusher) = []"
  "result_outgoing (push_results example_floats 0 example_pushes example_pusher) = [[''r1'']]"
  "items (push_results example_floats 0 example_pushes example_pusher) = [''r2'']"
  by (simp_all add: push_results_def push_results_entry_def push_results_iter_def
      push_poll_period_def example_floats_def example_pusher_def example_pushes_def
      Manager_init_def example_config_def Let_def manager.defs push_results_state.defs)

text \<open>
  Claim C7, as the code has it. An iteration of the result pusher calls \<open>get\<close> with the
  timeout \<open>max(10, poll_period) / 1000\<close> seconds, a float, and appends what it got to the
  buffer. The flush test holds when the buffer has reached \<open>max_queue_size\<close> items or
  the clock is later than the float sum of \<open>last_beat\<close> and that period. When it holds,
  \<open>last_beat\<close> becomes the clock read at line 407 and the buffer, unless it is empty, is
  sent as one multi-frame message and emptied; so \<open>last_beat\<close> is the time the test
  last held, with or without a send. When it does not hold, nothing is sent and the
  buffer is kept. Over any number of iterations no message sent is empty, and the
  messages sent, followed by the buffer, are the buffer at the start followed by the
  items dequeued, in order: every result is sent once or is still buffered. The loop
  applies the iterations one after the other.
\<close>

theorem push_results_flush:
  "(let period = float_div fl (max 10 (poll_period st)) 1000;
        buf = items st @ (case queue_get tk period of
                            Got r \<Rightarrow> [r] | Empty \<Rightarrow> [] | Failed \<Rightarrow> []);
        due = (max_queue_size st \<le> int (length buf) \<or>
               float_add fl (push_last_beat st) period < now_flush tk);
        st' = push_results_iter fl tk st
    in result_outgoing st' = result_outgoing st @ (if due \<and> buf \<noteq> [] then [buf] else []) \<and>
       items st' = (if due then [] else buf) \<and>
       push_last_beat st' = (if due then now_mark tk else push_last_beat st))
   \<and> (\<exists>sent. result_outgoing (push_results_loop fl tks st) = result_outgoing st @ sent \<and>
          [] \<notin> set sent \<and>
          concat sent @ items (push_results_loop fl tks st) =
            items st @ dequeued (float_div fl (max 10 (poll_period st)) 1000) tks)
   \<and> push_results_loop fl (tks @ [tk]) st =
       push_results_iter fl tk (push_results_loop fl tks st)"
  using push_results_iter_effect [of fl st tk] push_results_loop_conserves [of fl tks st]
    push_results_loop_snoc [of fl tks tk st]
  by simp

theorem push_results_flush_witness:
  "result_outgoing (push_results_iter example_floats (hd example_pushes)
       (push_results_entry 0 example_pusher)) = [[''r1'']] \<and>
   items (push_results_iter example_floats (hd example_pushes)
       (push_results_entry 0 example_pusher)) = [] \<and>
   push_last_beat (push_results_iter example_floats (hd example_pushes)
       (push_results_entry 0 example_pusher)) = 3 / 4"
  using push_results_flush [of example_floats "push_results_entry 0 example_pusher"
      "hd example_pushes" "[]"]
  by (simp add: push_results_entry_def example_floats_def example_pusher_def
      example_pushes_def Manager_init_def example_config_def Let_def manager.defs
      push_results_state.defs)

text \<open>
  The claim as stated fails. With a period of 1/2 s and \<open>max_queue_size\<close> 14, the first
  result is sent at clock 3/4. At clock 3/2 the period has elapsed and the buffer is
  empty: nothing is sent, and \<open>last_beat\<close> moves to 3/2. At clock 7/4 a second result is
  in the buffer, a full second after the last message was sent, and it is not sent,
  because 7/4 is not later than 3/2 + 1/2.
\<close>

theorem push_results_elapsed_counterexample:
  "push_poll_period example_floats example_pusher = 1 / 2 \<and>
   max_queue_size example_pusher = 14 \<and>
   result_outgoing (push_results example_floats 0 (take 1 example_pushes) example_pusher) =
     [[''r1'']] \<and>
   push_last_beat (push_results example_floats 0 (take 1 example_pushes) example_pusher) = 3 / 4 \<and>
   result_outgoing (push_results example_floats 0 (take 2 example_pushes) example_pusher) =
     [[''r1'']] \<and>
   push_last_beat (push_results example_floats 0 (take 2 example_pushes) example_pusher) = 3 / 2 \<and>
   (3 / 4 + 1 / 2 :: rat) < 7 / 4 \<and>
   items (push_results example_floats 0 example_pushes example_pusher) = [''r2''] \<and>
   result_outgoing (push_results example_floats 0 example_pushes example_pusher) = [[''r1'']]"
  using example_pusher_run by simp


section \<open>Order of dispatch\<close>
































end
